theory Spec2Isabelle
  imports Complex_Main "HOL-Library.Char_ord" "HOL-Library.List_Lexorder"
    "HOL-Library.Product_Lexorder"
begin

section \<open>Data model\<close>

text \<open>
  Both generators (\<^verbatim>\<open>generate_baseline_v2.py\<close> and \<^verbatim>\<open>generate_s8_nhood_aniso.py\<close>) read
  JSON objects and run the same seven stages over them. A raw record is a dictionary; the
  fields the stages read are kept, with the reading the source gives to a missing key:
  \<^item> \<open>beds\<close>: \<^verbatim>\<open>l.get("beds")\<close>, \<open>None\<close> when the key is absent;
  \<^item> \<open>rent\<close>: \<^verbatim>\<open>l.get("rent", 0)\<close>, so an absent key is the rent 0;
  \<^item> \<open>ptype\<close>: \<^verbatim>\<open>l.get("type") or ""\<close>, so an absent or null type is the empty string;
  \<^item> \<open>lat\<close>, \<open>lng\<close>: \<^verbatim>\<open>l.get("lat")\<close>; an absent key, a null and 0 are all falsy to the filter
    and are all the value 0 here (the filter drops the record and no later stage reads it);
  \<^item> \<open>neighborhood\<close>: \<open>None\<close> when the key is absent (the two readers use different defaults);
  \<^item> \<open>rented_date\<close>: \<^verbatim>\<open>r.get("rented_date", "")\<close>.
  Python floats are modelled as real numbers and Python integers as \<open>int\<close>; rents are
  integers.
\<close>

record listing =
  beds :: "int option"
  rent :: int
  ptype :: string
  lat :: real
  lng :: real
  neighborhood :: "string option"
  rented_date :: string

text \<open>A heat point is the dictionary \<^verbatim>\<open>{"lat", "lng", "rent", "count"}\<close>.\<close>

record heat_point =
  hp_lat :: real
  hp_lng :: real
  hp_rent :: int
  hp_count :: nat

subsection \<open>Python's built-ins\<close>

text \<open>\<^verbatim>\<open>round(x)\<close>: to the nearest integer, a tie going to the even neighbour.\<close>

definition py_round :: "real \<Rightarrow> int" where
  "py_round x =
     (let f = \<lfloor>x\<rfloor>; d = x - of_int f
      in if d < 1 / 2 then f else if 1 / 2 < d then f + 1
         else if even f then f else f + 1)"

text \<open>\<^verbatim>\<open>round(x, n)\<close>: to \<open>n\<close> decimal places.\<close>

definition py_round_nd :: "real \<Rightarrow> nat \<Rightarrow> real" where
  "py_round_nd x n = of_int (py_round (x * 10 ^ n)) / 10 ^ n"

text \<open>\<^verbatim>\<open>str.upper\<close> on ASCII text.\<close>

definition upper_char :: "char \<Rightarrow> char" where
  "upper_char c =
     (case map_of (zip ''abcdefghijklmnopqrstuvwxyz'' ''ABCDEFGHIJKLMNOPQRSTUVWXYZ'') c of
        Some u \<Rightarrow> u
      | None \<Rightarrow> c)"

definition upper :: "string \<Rightarrow> string" where
  "upper s = map upper_char s"

text \<open>\<^verbatim>\<open>sorted(xs)[len(xs) // 2]\<close>: the upper of the two middle elements when the length is even.\<close>

definition middle_sorted :: "int list \<Rightarrow> int" where
  "middle_sorted xs = sort xs ! (length xs div 2)"

text \<open>\<^verbatim>\<open>statistics.median\<close>: the mean of the two middle elements when the length is even.\<close>

definition median :: "int list \<Rightarrow> real" where
  "median xs =
     (let s = sort xs; n = length s
      in if odd n then of_int (s ! (n div 2))
         else (of_int (s ! (n div 2 - 1)) + of_int (s ! (n div 2))) / 2)"

text \<open>
  \<^verbatim>\<open>defaultdict(list)\<close> filled by \<^verbatim>\<open>d[key].append(v)\<close>: a dictionary keeps its keys in the
  order of their first insertion, so it is an association list.
\<close>

fun dict_append :: "'k \<Rightarrow> 'v \<Rightarrow> ('k \<times> 'v list) list \<Rightarrow> ('k \<times> 'v list) list" where
  "dict_append k v [] = [(k, [v])]"
| "dict_append k v ((k', vs) # d) =
     (if k = k' then (k', vs @ [v]) # d else (k', vs) # dict_append k v d)"

definition group_by :: "('a \<Rightarrow> 'k) \<Rightarrow> ('a \<Rightarrow> 'v) \<Rightarrow> 'a list \<Rightarrow> ('k \<times> 'v list) list" where
  "group_by key val xs = foldl (\<lambda>d x. dict_append (key x) (val x) d) [] xs"

section \<open>Step 1 and 2: the listing filter\<close>

definition one_br :: "listing list \<Rightarrow> listing list" where
  "one_br all_raw = filter (\<lambda>l. beds l = Some 1) all_raw"

definition BAD_TYPES :: "string set" where
  "BAD_TYPES = {''THREEFAMILY'', ''TWOFAMILY'', ''MIXED_USE'', ''TOWNHOUSE'', ''LAND'',
                ''FOURFAMILY'', ''MULTIFAMILY'', ''COMMERCIAL''}"

text \<open>The body of the cleaning loop: \<open>True\<close> when the record reaches \<^verbatim>\<open>cleaned.append(l)\<close>.\<close>

definition keep :: "listing \<Rightarrow> bool" where
  "keep l =
     (if lat l = 0 \<or> lng l = 0 then False
      else if rent l > 25000 then False
      else if upper (ptype l) \<in> BAD_TYPES then False
      else if rent l < 500 then False
      else True)"

definition cleaned :: "listing list \<Rightarrow> listing list" where
  "cleaned all_raw = filter keep (one_br all_raw)"

section \<open>Step 3: the region classifier\<close>

text \<open>
  The generators store the label in the record (\<^verbatim>\<open>l["borough"]\<close>) and read it only for
  the printed per-region statistics; no later stage of the heat map reads it, so the
  record type has no such field and the classifiers are functions of the listing.
\<close>

text \<open>The dictionary \<^verbatim>\<open>BOROUGH_MAP\<close> of the baseline generator (no key occurs twice).\<close>

definition BOROUGH_MAP :: "(string \<times> string) list" where
  "BOROUGH_MAP = [
    (''Battery Park City'', ''Manhattan''), (''Beekman'', ''Manhattan''),
    (''Carnegie Hill'', ''Manhattan''), (''Central Harlem'', ''Manhattan''),
    (''Central Park South'', ''Manhattan''), (''Chelsea'', ''Manhattan''),
    (''Chinatown'', ''Manhattan''), (''Civic Center'', ''Manhattan''),
    (''East Harlem'', ''Manhattan''), (''East Village'', ''Manhattan''),
    (''Financial District'', ''Manhattan''), (''Flatiron'', ''Manhattan''),
    (''Fort George'', ''Manhattan''), (''Fulton/Seaport'', ''Manhattan''),
    (''Gramercy Park'', ''Manhattan''), (''Greenwich Village'', ''Manhattan''),
    (''Hamilton Heights'', ''Manhattan''), (''Hell's Kitchen'', ''Manhattan''),
    (''Hudson Heights'', ''Manhattan''), (''Hudson Square'', ''Manhattan''),
    (''Hudson Yards'', ''Manhattan''), (''Inwood'', ''Manhattan''),
    (''Kips Bay'', ''Manhattan''), (''Lenox Hill'', ''Manhattan''),
    (''Lincoln Square'', ''Manhattan''), (''Little Italy'', ''Manhattan''),
    (''Lower East Side'', ''Manhattan''), (''Madison'', ''Manhattan''),
    (''Manhattan Beach'', ''Brooklyn''), (''Manhattan Valley'', ''Manhattan''),
    (''Manhattanville'', ''Manhattan''), (''Marble Hill'', ''Manhattan''),
    (''Midtown'', ''Manhattan''), (''Midtown South'', ''Manhattan''),
    (''Morningside Heights'', ''Manhattan''), (''Murray Hill'', ''Manhattan''),
    (''NoMad'', ''Manhattan''), (''Noho'', ''Manhattan''), (''Nolita'', ''Manhattan''),
    (''Roosevelt Island'', ''Manhattan''), (''Soho'', ''Manhattan''),
    (''South Harlem'', ''Manhattan''), (''Stuyvesant Town/PCV'', ''Manhattan''),
    (''Sutton Place'', ''Manhattan''), (''Tribeca'', ''Manhattan''),
    (''Turtle Bay'', ''Manhattan''), (''Two Bridges'', ''Manhattan''),
    (''Upper Carnegie Hill'', ''Manhattan''), (''Upper East Side'', ''Manhattan''),
    (''Upper West Side'', ''Manhattan''), (''Washington Heights'', ''Manhattan''),
    (''West Chelsea'', ''Manhattan''), (''West Harlem'', ''Manhattan''),
    (''West Village'', ''Manhattan''), (''Yorkville'', ''Manhattan''),
    (''Bath Beach'', ''Brooklyn''), (''Bay Ridge'', ''Brooklyn''),
    (''Bedford-Stuyvesant'', ''Brooklyn''), (''Bensonhurst'', ''Brooklyn''),
    (''Bergen Beach'', ''Brooklyn''), (''Boerum Hill'', ''Brooklyn''),
    (''Borough Park'', ''Brooklyn''), (''Brooklyn Heights'', ''Brooklyn''),
    (''Brownsville'', ''Brooklyn''), (''Bushwick'', ''Brooklyn''), (''Canarsie'', ''Brooklyn''),
    (''Carroll Gardens'', ''Brooklyn''), (''City Line'', ''Brooklyn''),
    (''Clinton Hill'', ''Brooklyn''), (''Cobble Hill'', ''Brooklyn''),
    (''Columbia St Waterfront District'', ''Brooklyn''), (''Coney Island'', ''Brooklyn''),
    (''Crown Heights'', ''Brooklyn''), (''Cypress Hills'', ''Brooklyn''),
    (''DUMBO'', ''Brooklyn''), (''Ditmars-Steinway'', ''Queens''),
    (''Ditmas Park'', ''Brooklyn''), (''Downtown Brooklyn'', ''Brooklyn''),
    (''Dyker Heights'', ''Brooklyn''), (''East Flatbush'', ''Brooklyn''),
    (''East New York'', ''Brooklyn''), (''East Williamsburg'', ''Brooklyn''),
    (''Farragut'', ''Brooklyn''), (''Fiske Terrace'', ''Brooklyn''),
    (''Flatbush'', ''Brooklyn''), (''Flatlands'', ''Brooklyn''), (''Fort Greene'', ''Brooklyn''),
    (''Fort Hamilton'', ''Brooklyn''), (''Gowanus'', ''Brooklyn''),
    (''Gravesend'', ''Brooklyn''), (''Greenpoint'', ''Brooklyn''), (''Greenwood'', ''Brooklyn''),
    (''Homecrest'', ''Brooklyn''), (''Kensington'', ''Brooklyn''), (''Mapleton'', ''Brooklyn''),
    (''Marine Park'', ''Brooklyn''), (''Midwood'', ''Brooklyn''), (''Mill Basin'', ''Brooklyn''),
    (''New Lots'', ''Brooklyn''), (''Ocean Hill'', ''Brooklyn''), (''Park Slope'', ''Brooklyn''),
    (''Prospect Heights'', ''Brooklyn''), (''Prospect Lefferts Gardens'', ''Brooklyn''),
    (''Prospect Park South'', ''Brooklyn''), (''Red Hook'', ''Brooklyn''),
    (''Sheepshead Bay'', ''Brooklyn''), (''Starrett City'', ''Brooklyn''),
    (''Stuyvesant Heights'', ''Brooklyn''), (''Sunset Park'', ''Brooklyn''),
    (''Vinegar Hill'', ''Brooklyn''), (''Weeksville'', ''Brooklyn''),
    (''Williamsburg'', ''Brooklyn''), (''Windsor Terrace'', ''Brooklyn''),
    (''Wingate'', ''Brooklyn''), (''Arverne'', ''Queens''), (''Astoria'', ''Queens''),
    (''Auburndale'', ''Queens''), (''Bay Terrace'', ''Queens''), (''Bayside'', ''Queens''),
    (''Bayswater'', ''Queens''), (''Beechhurst'', ''Queens''), (''Briarwood'', ''Queens''),
    (''Brookville'', ''Queens''), (''College Point'', ''Queens''), (''Corona'', ''Queens''),
    (''Douglaston'', ''Queens''), (''East Elmhurst'', ''Queens''),
    (''East Flushing'', ''Queens''), (''Elmhurst'', ''Queens''), (''Far Rockaway'', ''Queens''),
    (''Flushing'', ''Queens''), (''Forest Hills'', ''Queens''), (''Fresh Meadows'', ''Queens''),
    (''Glen Oaks'', ''Queens''), (''Glendale'', ''Queens''), (''Hillcrest'', ''Queens''),
    (''Hollis'', ''Queens''), (''Hunters Point'', ''Queens''), (''Jackson Heights'', ''Queens''),
    (''Jamaica'', ''Queens''), (''Jamaica Estates'', ''Queens''),
    (''Jamaica Hills'', ''Queens''), (''Kew Gardens'', ''Queens''),
    (''Kew Gardens Hills'', ''Queens''), (''Laurelton'', ''Queens''),
    (''Lindenwood'', ''Queens''), (''Little Neck'', ''Queens''),
    (''Long Island City'', ''Queens''), (''Malba'', ''Queens''), (''Maspeth'', ''Queens''),
    (''Middle Village'', ''Queens''), (''North Corona'', ''Queens''),
    (''North New York'', ''Queens''), (''Oakland Gardens'', ''Queens''),
    (''Old Howard Beach'', ''Queens''), (''Ozone Park'', ''Queens''), (''Pomonok'', ''Queens''),
    (''Queens'', ''Queens''), (''Queens Village'', ''Queens''), (''Rego Park'', ''Queens''),
    (''Richmond Hill'', ''Queens''), (''Ridgewood'', ''Queens''),
    (''Rockaway Park'', ''Queens''), (''Rockwood Park'', ''Queens''), (''Rosedale'', ''Queens''),
    (''South Jamaica'', ''Queens''), (''South Ozone Park'', ''Queens''),
    (''Springfield Gardens'', ''Queens''), (''St. Albans'', ''Queens''),
    (''Sunnyside'', ''Queens''), (''The Rockaways'', ''Queens''), (''Whitestone'', ''Queens''),
    (''Woodhaven'', ''Queens''), (''Woodside'', ''Queens''), (''Bedford Park'', ''Bronx''),
    (''Belmont'', ''Bronx''), (''Bronxwood'', ''Bronx''), (''City Island'', ''Bronx''),
    (''Claremont'', ''Bronx''), (''Concourse'', ''Bronx''), (''Country Club'', ''Bronx''),
    (''Crotona Park East'', ''Bronx''), (''East Tremont'', ''Bronx''),
    (''Fieldston'', ''Bronx''), (''Fordham'', ''Bronx''), (''Highbridge'', ''Bronx''),
    (''Hunts Point'', ''Bronx''), (''Kingsbridge'', ''Bronx''),
    (''Kingsbridge Heights'', ''Bronx''), (''Laconia'', ''Bronx''),
    (''Locust Point'', ''Bronx''), (''Longwood'', ''Bronx''), (''Melrose'', ''Bronx''),
    (''Morris Heights'', ''Bronx''), (''Morris Park'', ''Bronx''), (''Morrisania'', ''Bronx''),
    (''Mott Haven'', ''Bronx''), (''Mt. Hope'', ''Bronx''), (''Norwood'', ''Bronx''),
    (''Parkchester'', ''Bronx''), (''Pelham Bay'', ''Bronx''), (''Pelham Gardens'', ''Bronx''),
    (''Pelham Parkway'', ''Bronx''), (''Riverdale'', ''Bronx''), (''Schuylerville'', ''Bronx''),
    (''Soundview'', ''Bronx''), (''Spuyten Duyvil'', ''Bronx''), (''Throgs Neck'', ''Bronx''),
    (''Tremont'', ''Bronx''), (''University Heights'', ''Bronx''), (''Van Nest'', ''Bronx''),
    (''Wakefield'', ''Bronx''), (''West Farms'', ''Bronx''), (''Westchester Square'', ''Bronx''),
    (''Williamsbridge'', ''Bronx''), (''Woodstock'', ''Bronx''),
    (''Annadale'', ''Staten Island''), (''Arden Heights'', ''Staten Island''),
    (''Arrochar'', ''Staten Island''), (''Bulls Head'', ''Staten Island''),
    (''Castleton Corners'', ''Staten Island''), (''Clifton'', ''Staten Island''),
    (''Dongan Hills'', ''Staten Island''), (''Elm Park'', ''Staten Island''),
    (''Eltingville'', ''Staten Island''), (''Emerson Hill'', ''Staten Island''),
    (''Grant City'', ''Staten Island''), (''Graniteville'', ''Staten Island''),
    (''Grasmere'', ''Staten Island''), (''Great Kills'', ''Staten Island''),
    (''Grymes Hill'', ''Staten Island''), (''Huguenot'', ''Staten Island''),
    (''Mariners Harbor'', ''Staten Island''), (''Meiers Corners'', ''Staten Island''),
    (''Midland Beach'', ''Staten Island''), (''New Brighton'', ''Staten Island''),
    (''New Dorp'', ''Staten Island''), (''New Dorp Beach'', ''Staten Island''),
    (''New Springville'', ''Staten Island''), (''Oakwood'', ''Staten Island''),
    (''Park Hill'', ''Staten Island''), (''Port Richmond'', ''Staten Island''),
    (''Princes Bay'', ''Staten Island''), (''Ramblersville'', ''Queens''),
    (''Richmondtown'', ''Staten Island''), (''Rosebank'', ''Staten Island''),
    (''Rossville'', ''Staten Island''), (''Saint George'', ''Staten Island''),
    (''Shore Acres'', ''Staten Island''), (''Silver Lake'', ''Staten Island''),
    (''South Beach'', ''Staten Island''), (''Stapleton'', ''Staten Island''),
    (''Tompkinsville'', ''Staten Island''), (''Tottenville'', ''Staten Island''),
    (''West Brighton'', ''Staten Island''), (''Westerleigh'', ''Staten Island''),
    (''Willowbrook'', ''Staten Island''), (''Woodrow'', ''Staten Island'')]"

text \<open>
  \<^verbatim>\<open>get_borough\<close>: the table first, then the threshold rules on the coordinates in the
  order of the source, and the sentinel when none of them returns.
\<close>

definition get_borough :: "listing \<Rightarrow> string" where
  "get_borough listing =
     (let n = (case neighborhood listing of None \<Rightarrow> [] | Some s \<Rightarrow> s)
      in case map_of BOROUGH_MAP n of
           Some b \<Rightarrow> b
         | None \<Rightarrow>
             (let lat = lat listing; lng = lng listing
              in if (- 74.03 < lng \<and> lng < - 73.90 \<and> 40.70 < lat \<and> lat < 40.88)
                    \<and> (lng > - 73.96 \<or> lat < 40.75) then ''Manhattan''
                 else if lat < 40.65 \<and> lng < - 74.04 then ''Staten Island''
                 else if lat > 40.80 \<and> lng > - 73.94 then ''Bronx''
                 else if lat > 40.85 then ''Bronx''
                 else if lat < 40.74 then (if lng < - 73.92 then ''Brooklyn'' else ''Queens'')
                 else if lng > - 73.92 then ''Queens''
                 else ''Unknown''))"

text \<open>The dictionary \<^verbatim>\<open>REGION_MAP\<close> of the S8 generator (no key occurs twice).\<close>

definition REGION_MAP :: "(string \<times> string) list" where
  "REGION_MAP = [
    (''Mott Haven'', ''South Bronx''), (''Melrose'', ''South Bronx''),
    (''Hunts Point'', ''South Bronx''), (''Longwood'', ''South Bronx''),
    (''Morrisania'', ''South Bronx''), (''Concourse'', ''South Bronx''),
    (''Highbridge'', ''South Bronx''), (''Crotona Park East'', ''South Bronx''),
    (''Woodstock'', ''South Bronx''), (''Bedford Park'', ''Bronx''), (''Belmont'', ''Bronx''),
    (''Bronxwood'', ''Bronx''), (''City Island'', ''Bronx''), (''Claremont'', ''Bronx''),
    (''Country Club'', ''Bronx''), (''East Tremont'', ''Bronx''), (''Fieldston'', ''Bronx''),
    (''Fordham'', ''Bronx''), (''Kingsbridge'', ''Bronx''), (''Kingsbridge Heights'', ''Bronx''),
    (''Laconia'', ''Bronx''), (''Locust Point'', ''Bronx''), (''Morris Heights'', ''Bronx''),
    (''Morris Park'', ''Bronx''), (''Mt. Hope'', ''Bronx''), (''Norwood'', ''Bronx''),
    (''Parkchester'', ''Bronx''), (''Pelham Bay'', ''Bronx''), (''Pelham Gardens'', ''Bronx''),
    (''Pelham Parkway'', ''Bronx''), (''Riverdale'', ''Bronx''), (''Schuylerville'', ''Bronx''),
    (''Soundview'', ''Bronx''), (''Spuyten Duyvil'', ''Bronx''), (''Throgs Neck'', ''Bronx''),
    (''Tremont'', ''Bronx''), (''University Heights'', ''Bronx''), (''Van Nest'', ''Bronx''),
    (''Wakefield'', ''Bronx''), (''West Farms'', ''Bronx''), (''Westchester Square'', ''Bronx''),
    (''Williamsbridge'', ''Bronx''), (''Battery Park City'', ''Lower Manhattan''),
    (''Beekman'', ''Lower Manhattan''), (''Carnegie Hill'', ''Lower Manhattan''),
    (''Central Park South'', ''Lower Manhattan''), (''Chelsea'', ''Lower Manhattan''),
    (''Chinatown'', ''Lower Manhattan''), (''Civic Center'', ''Lower Manhattan''),
    (''East Village'', ''Lower Manhattan''), (''Financial District'', ''Lower Manhattan''),
    (''Flatiron'', ''Lower Manhattan''), (''Fulton/Seaport'', ''Lower Manhattan''),
    (''Gramercy Park'', ''Lower Manhattan''), (''Greenwich Village'', ''Lower Manhattan''),
    (''Hell's Kitchen'', ''Lower Manhattan''), (''Hudson Square'', ''Lower Manhattan''),
    (''Hudson Yards'', ''Lower Manhattan''), (''Kips Bay'', ''Lower Manhattan''),
    (''Lenox Hill'', ''Lower Manhattan''), (''Lincoln Square'', ''Lower Manhattan''),
    (''Little Italy'', ''Lower Manhattan''), (''Lower East Side'', ''Lower Manhattan''),
    (''Madison'', ''Lower Manhattan''), (''Manhattan Valley'', ''Lower Manhattan''),
    (''Midtown'', ''Lower Manhattan''), (''Midtown South'', ''Lower Manhattan''),
    (''Murray Hill'', ''Lower Manhattan''), (''NoMad'', ''Lower Manhattan''),
    (''Noho'', ''Lower Manhattan''), (''Nolita'', ''Lower Manhattan''),
    (''Roosevelt Island'', ''Lower Manhattan''), (''Soho'', ''Lower Manhattan''),
    (''Stuyvesant Town/PCV'', ''Lower Manhattan''), (''Sutton Place'', ''Lower Manhattan''),
    (''Tribeca'', ''Lower Manhattan''), (''Turtle Bay'', ''Lower Manhattan''),
    (''Two Bridges'', ''Lower Manhattan''), (''Upper Carnegie Hill'', ''Lower Manhattan''),
    (''Upper East Side'', ''Lower Manhattan''), (''Upper West Side'', ''Lower Manhattan''),
    (''West Chelsea'', ''Lower Manhattan''), (''West Village'', ''Lower Manhattan''),
    (''Yorkville'', ''Lower Manhattan''), (''Central Harlem'', ''Upper Manhattan''),
    (''East Harlem'', ''Upper Manhattan''), (''Fort George'', ''Upper Manhattan''),
    (''Hamilton Heights'', ''Upper Manhattan''), (''Hudson Heights'', ''Upper Manhattan''),
    (''Inwood'', ''Upper Manhattan''), (''Manhattanville'', ''Upper Manhattan''),
    (''Marble Hill'', ''Upper Manhattan''), (''Morningside Heights'', ''Upper Manhattan''),
    (''South Harlem'', ''Upper Manhattan''), (''Washington Heights'', ''Upper Manhattan''),
    (''West Harlem'', ''Upper Manhattan''), (''Bedford-Stuyvesant'', ''North Brooklyn''),
    (''Boerum Hill'', ''North Brooklyn''), (''Brooklyn Heights'', ''North Brooklyn''),
    (''Bushwick'', ''North Brooklyn''), (''Carroll Gardens'', ''North Brooklyn''),
    (''Clinton Hill'', ''North Brooklyn''), (''Cobble Hill'', ''North Brooklyn''),
    (''Columbia St Waterfront District'', ''North Brooklyn''),
    (''Crown Heights'', ''North Brooklyn''), (''DUMBO'', ''North Brooklyn''),
    (''Downtown Brooklyn'', ''North Brooklyn''), (''East Williamsburg'', ''North Brooklyn''),
    (''Fort Greene'', ''North Brooklyn''), (''Gowanus'', ''North Brooklyn''),
    (''Greenpoint'', ''North Brooklyn''), (''Ocean Hill'', ''North Brooklyn''),
    (''Park Slope'', ''North Brooklyn''), (''Prospect Heights'', ''North Brooklyn''),
    (''Red Hook'', ''North Brooklyn''), (''Stuyvesant Heights'', ''North Brooklyn''),
    (''Vinegar Hill'', ''North Brooklyn''), (''Weeksville'', ''North Brooklyn''),
    (''Williamsburg'', ''North Brooklyn''), (''Windsor Terrace'', ''North Brooklyn''),
    (''Bath Beach'', ''South Brooklyn''), (''Bay Ridge'', ''South Brooklyn''),
    (''Bensonhurst'', ''South Brooklyn''), (''Bergen Beach'', ''South Brooklyn''),
    (''Borough Park'', ''South Brooklyn''), (''Brownsville'', ''South Brooklyn''),
    (''Canarsie'', ''South Brooklyn''), (''City Line'', ''South Brooklyn''),
    (''Coney Island'', ''South Brooklyn''), (''Cypress Hills'', ''South Brooklyn''),
    (''Ditmas Park'', ''South Brooklyn''), (''Dyker Heights'', ''South Brooklyn''),
    (''East Flatbush'', ''South Brooklyn''), (''East New York'', ''South Brooklyn''),
    (''Farragut'', ''South Brooklyn''), (''Fiske Terrace'', ''South Brooklyn''),
    (''Flatbush'', ''South Brooklyn''), (''Flatlands'', ''South Brooklyn''),
    (''Fort Hamilton'', ''South Brooklyn''), (''Gravesend'', ''South Brooklyn''),
    (''Greenwood'', ''South Brooklyn''), (''Homecrest'', ''South Brooklyn''),
    (''Kensington'', ''South Brooklyn''), (''Manhattan Beach'', ''South Brooklyn''),
    (''Mapleton'', ''South Brooklyn''), (''Marine Park'', ''South Brooklyn''),
    (''Midwood'', ''South Brooklyn''), (''Mill Basin'', ''South Brooklyn''),
    (''New Lots'', ''South Brooklyn''), (''Prospect Lefferts Gardens'', ''South Brooklyn''),
    (''Prospect Park South'', ''South Brooklyn''), (''Sheepshead Bay'', ''South Brooklyn''),
    (''Starrett City'', ''South Brooklyn''), (''Sunset Park'', ''South Brooklyn''),
    (''Wingate'', ''South Brooklyn''), (''Annadale'', ''Staten Island''),
    (''Arden Heights'', ''Staten Island''), (''Arrochar'', ''Staten Island''),
    (''Bulls Head'', ''Staten Island''), (''Castleton Corners'', ''Staten Island''),
    (''Clifton'', ''Staten Island''), (''Dongan Hills'', ''Staten Island''),
    (''Elm Park'', ''Staten Island''), (''Eltingville'', ''Staten Island''),
    (''Emerson Hill'', ''Staten Island''), (''Grant City'', ''Staten Island''),
    (''Graniteville'', ''Staten Island''), (''Grasmere'', ''Staten Island''),
    (''Great Kills'', ''Staten Island''), (''Grymes Hill'', ''Staten Island''),
    (''Huguenot'', ''Staten Island''), (''Mariners Harbor'', ''Staten Island''),
    (''Meiers Corners'', ''Staten Island''), (''Midland Beach'', ''Staten Island''),
    (''New Brighton'', ''Staten Island''), (''New Dorp'', ''Staten Island''),
    (''New Dorp Beach'', ''Staten Island''), (''New Springville'', ''Staten Island''),
    (''Oakwood'', ''Staten Island''), (''Park Hill'', ''Staten Island''),
    (''Port Richmond'', ''Staten Island''), (''Princes Bay'', ''Staten Island''),
    (''Richmondtown'', ''Staten Island''), (''Rosebank'', ''Staten Island''),
    (''Rossville'', ''Staten Island''), (''Saint George'', ''Staten Island''),
    (''Shore Acres'', ''Staten Island''), (''Silver Lake'', ''Staten Island''),
    (''South Beach'', ''Staten Island''), (''Stapleton'', ''Staten Island''),
    (''Tompkinsville'', ''Staten Island''), (''Tottenville'', ''Staten Island''),
    (''West Brighton'', ''Staten Island''), (''Westerleigh'', ''Staten Island''),
    (''Willowbrook'', ''Staten Island''), (''Woodrow'', ''Staten Island''),
    (''Astoria'', ''W. Queens''), (''Ditmars-Steinway'', ''W. Queens''),
    (''Hunters Point'', ''W. Queens''), (''Long Island City'', ''W. Queens''),
    (''Sunnyside'', ''W. Queens''), (''Woodside'', ''W. Queens''), (''Arverne'', ''Queens''),
    (''Auburndale'', ''Queens''), (''Bay Terrace'', ''Queens''), (''Bayside'', ''Queens''),
    (''Bayswater'', ''Queens''), (''Beechhurst'', ''Queens''), (''Briarwood'', ''Queens''),
    (''Brookville'', ''Queens''), (''College Point'', ''Queens''), (''Corona'', ''Queens''),
    (''Douglaston'', ''Queens''), (''East Elmhurst'', ''Queens''),
    (''East Flushing'', ''Queens''), (''Elmhurst'', ''Queens''), (''Far Rockaway'', ''Queens''),
    (''Flushing'', ''Queens''), (''Forest Hills'', ''Queens''), (''Fresh Meadows'', ''Queens''),
    (''Glen Oaks'', ''Queens''), (''Glendale'', ''Queens''), (''Hillcrest'', ''Queens''),
    (''Hollis'', ''Queens''), (''Jackson Heights'', ''Queens''), (''Jamaica'', ''Queens''),
    (''Jamaica Estates'', ''Queens''), (''Jamaica Hills'', ''Queens''),
    (''Kew Gardens'', ''Queens''), (''Kew Gardens Hills'', ''Queens''),
    (''Laurelton'', ''Queens''), (''Lindenwood'', ''Queens''), (''Little Neck'', ''Queens''),
    (''Malba'', ''Queens''), (''Maspeth'', ''Queens''), (''Middle Village'', ''Queens''),
    (''North Corona'', ''Queens''), (''North New York'', ''Queens''),
    (''Oakland Gardens'', ''Queens''), (''Old Howard Beach'', ''Queens''),
    (''Ozone Park'', ''Queens''), (''Pomonok'', ''Queens''), (''Queens'', ''Queens''),
    (''Queens Village'', ''Queens''), (''Ramblersville'', ''Queens''),
    (''Rego Park'', ''Queens''), (''Richmond Hill'', ''Queens''), (''Ridgewood'', ''Queens''),
    (''Rockaway Park'', ''Queens''), (''Rockwood Park'', ''Queens''), (''Rosedale'', ''Queens''),
    (''South Jamaica'', ''Queens''), (''South Ozone Park'', ''Queens''),
    (''Springfield Gardens'', ''Queens''), (''St. Albans'', ''Queens''),
    (''The Rockaways'', ''Queens''), (''Whitestone'', ''Queens''), (''Woodhaven'', ''Queens'')]"

text \<open>\<^verbatim>\<open>get_region\<close>: the nine-region classifier of the S8 generator.\<close>

definition get_region :: "listing \<Rightarrow> string" where
  "get_region listing =
     (let n = (case neighborhood listing of None \<Rightarrow> [] | Some s \<Rightarrow> s)
      in case map_of REGION_MAP n of
           Some b \<Rightarrow> b
         | None \<Rightarrow>
             (let lat = lat listing; lng = lng listing
              in if lat < 40.65 \<and> lng < - 74.04 then ''Staten Island''
                 else if lat > 40.85 \<or> (lat > 40.80 \<and> lng > - 73.94) then
                   (if lat < 40.818 then ''South Bronx'' else ''Bronx'')
                 else if (- 74.03 < lng \<and> lng < - 73.90 \<and> 40.70 < lat \<and> lat < 40.88)
                    \<and> (lng > - 73.96 \<or> lat < 40.75) then
                   (if lng > - 73.96 \<and> lat \<ge> 40.785 then ''Upper Manhattan''
                    else if lng \<le> - 73.96 \<and> lat \<ge> 40.800 then ''Upper Manhattan''
                    else ''Lower Manhattan'')
                 else if lat < 40.74 \<and> lng < - 73.83 then
                   (if lat > 40.660 then ''North Brooklyn'' else ''South Brooklyn'')
                 else if lng > - 73.95 \<and> lng < - 73.90 \<and> lat > 40.73 then ''W. Queens''
                 else ''Queens''))"

section \<open>Step 4: the local median index and the rent-stabilization filter\<close>

definition SPATIAL_GRID :: real where
  "SPATIAL_GRID = 0.01"

definition spatial_key :: "real \<Rightarrow> real \<Rightarrow> real \<times> real" where
  "spatial_key la lo =
     (of_int (py_round (la / SPATIAL_GRID)) * SPATIAL_GRID,
      of_int (py_round (lo / SPATIAL_GRID)) * SPATIAL_GRID)"

definition spatial_cells :: "listing list \<Rightarrow> ((real \<times> real) \<times> int list) list" where
  "spatial_cells cohort = group_by (\<lambda>l. spatial_key (lat l) (lng l)) rent cohort"

text \<open>A coarse cell gets a median only with three rents or more.\<close>

definition spatial_medians :: "listing list \<Rightarrow> ((real \<times> real) \<times> real) list" where
  "spatial_medians cohort =
     map (\<lambda>(key, rents). (key, median rents))
       (filter (\<lambda>(key, rents). length rents \<ge> 3) (spatial_cells cohort))"

definition get_spatial_median :: "((real \<times> real) \<times> real) list \<Rightarrow> real \<Rightarrow> real \<Rightarrow> real option" where
  "get_spatial_median medians la lo = map_of medians (spatial_key la lo)"

text \<open>
  The ratio rule \<^verbatim>\<open>sm and rent < sm * tau\<close>: \<^verbatim>\<open>sm\<close> is falsy when the cell has no median and
  when the median is 0. The sources fix the ratio (0.50 and 0.60); it is a parameter here
  and the sources' filters are its instances below.
\<close>

definition below_ratio :: "real \<Rightarrow> ((real \<times> real) \<times> real) list \<Rightarrow> listing \<Rightarrow> bool" where
  "below_ratio tau medians l =
     (case get_spatial_median medians (lat l) (lng l) of
        None \<Rightarrow> False
      | Some sm \<Rightarrow> sm \<noteq> 0 \<and> of_int (rent l) < sm * tau)"

text \<open>Baseline: rule 1 (a rent under 2500 that is no multiple of 5), then the ratio rule.\<close>

definition is_rs_baseline :: "real \<Rightarrow> ((real \<times> real) \<times> real) list \<Rightarrow> listing \<Rightarrow> bool" where
  "is_rs_baseline tau medians l =
     (if rent l < 2500 \<and> rent l mod 5 \<noteq> 0 then True else below_ratio tau medians l)"

text \<open>S8: the ratio rule alone.\<close>

definition is_rs_s8 :: "real \<Rightarrow> ((real \<times> real) \<times> real) list \<Rightarrow> listing \<Rightarrow> bool" where
  "is_rs_s8 tau medians l = below_ratio tau medians l"

definition non_rs_baseline_at :: "real \<Rightarrow> listing list \<Rightarrow> listing list" where
  "non_rs_baseline_at tau cohort =
     filter (\<lambda>l. \<not> is_rs_baseline tau (spatial_medians cohort) l) cohort"

definition rs_flagged_baseline_at :: "real \<Rightarrow> listing list \<Rightarrow> nat" where
  "rs_flagged_baseline_at tau cohort =
     length (filter (is_rs_baseline tau (spatial_medians cohort)) cohort)"

definition non_rs_s8_at :: "real \<Rightarrow> listing list \<Rightarrow> listing list" where
  "non_rs_s8_at tau cohort = filter (\<lambda>l. \<not> is_rs_s8 tau (spatial_medians cohort) l) cohort"

definition rs_flagged_s8_at :: "real \<Rightarrow> listing list \<Rightarrow> nat" where
  "rs_flagged_s8_at tau cohort = length (filter (is_rs_s8 tau (spatial_medians cohort)) cohort)"

definition non_rs_baseline :: "listing list \<Rightarrow> listing list" where
  "non_rs_baseline cohort = non_rs_baseline_at 0.50 cohort"

definition non_rs_s8 :: "listing list \<Rightarrow> listing list" where
  "non_rs_s8 cohort = non_rs_s8_at 0.60 cohort"

section \<open>Step 6: the adaptive grid\<close>

definition get_grid_size :: "real \<Rightarrow> real \<Rightarrow> real" where
  "get_grid_size la lo =
     (if la < 40.786 \<and> lo > - 74.02 \<and> lo < - 73.93 then 0.002
      else if (40.68 < la \<and> la < 40.73) \<and> (- 73.99 < lo \<and> lo < - 73.93) then 0.002
      else 0.003)"

definition MIN_CELL_COUNT :: nat where
  "MIN_CELL_COUNT = 2"

definition grid_key :: "listing \<Rightarrow> real \<times> real \<times> real" where
  "grid_key l =
     (let gs = get_grid_size (lat l) (lng l);
          cell_lat = of_int (py_round (lat l / gs)) * gs;
          cell_lng = of_int (py_round (lng l / gs)) * gs
      in (py_round_nd cell_lat 6, py_round_nd cell_lng 6, gs))"

definition grid_cells :: "listing list \<Rightarrow> ((real \<times> real \<times> real) \<times> listing list) list" where
  "grid_cells non_rs = group_by grid_key (\<lambda>l. l) non_rs"

text \<open>The cells that survive \<^verbatim>\<open>if len(lsts) < MIN_CELL_COUNT: continue\<close>.\<close>

definition kept_cells :: "listing list \<Rightarrow> ((real \<times> real \<times> real) \<times> listing list) list" where
  "kept_cells non_rs =
     filter (\<lambda>(key, lsts). \<not> length lsts < MIN_CELL_COUNT) (grid_cells non_rs)"

text \<open>Baseline: \<^verbatim>\<open>med_rent = rents[len(rents) // 2]\<close> of the sorted rents.\<close>

definition heat_points_baseline :: "listing list \<Rightarrow> heat_point list" where
  "heat_points_baseline non_rs =
     map (\<lambda>((clat, clng, gs), lsts).
           \<lparr>hp_lat = py_round_nd clat 4, hp_lng = py_round_nd clng 4,
            hp_rent = middle_sorted (map rent lsts), hp_count = length lsts\<rparr>)
       (kept_cells non_rs)"

text \<open>S8: one mean per neighbourhood of the cell, then the mean of those means.\<close>

definition mean :: "int list \<Rightarrow> real" where
  "mean rents = of_int (sum_list rents) / of_nat (length rents)"

definition cell_rent_s8 :: "listing list \<Rightarrow> real" where
  "cell_rent_s8 lsts =
     (let by_nhood =
            group_by (\<lambda>l. case neighborhood l of None \<Rightarrow> ''Unknown'' | Some s \<Rightarrow> s) rent lsts
      in if length by_nhood > 1 then
           (let nhood_means = map (\<lambda>(nhood, rents). mean rents) by_nhood
            in sum_list nhood_means / of_nat (length nhood_means))
         else mean (map rent lsts))"

definition heat_points_s8 :: "listing list \<Rightarrow> heat_point list" where
  "heat_points_s8 non_rs =
     map (\<lambda>((clat, clng, gs), lsts).
           \<lparr>hp_lat = py_round_nd clat 4, hp_lng = py_round_nd clng 4,
            hp_rent = py_round (cell_rent_s8 lsts), hp_count = length lsts\<rparr>)
       (kept_cells non_rs)"

section \<open>The smoothing pass\<close>

definition SMOOTH_RADIUS :: real where
  "SMOOTH_RADIUS = 0.008"

definition RENT_SIGMA_SQ :: real where
  "RENT_SIGMA_SQ = 1500 ^ 2"

definition dist :: "heat_point \<Rightarrow> heat_point \<Rightarrow> real" where
  "dist hp other =
     (let dlat = hp_lat hp - hp_lat other; dlng = hp_lng hp - hp_lng other
      in sqrt (dlat ^ 2 + dlng ^ 2))"

text \<open>The weight of a neighbour at distance \<open>d\<close>: baseline, then S8.\<close>

definition weight_iso :: "heat_point \<Rightarrow> heat_point \<Rightarrow> real \<Rightarrow> real" where
  "weight_iso hp other d = 1 / d"

definition weight_aniso :: "heat_point \<Rightarrow> heat_point \<Rightarrow> real \<Rightarrow> real" where
  "weight_aniso hp other d =
     (let dist_w = 1 / d;
          rent_diff = hp_rent hp - hp_rent other;
          rent_penalty = exp (- (of_int (rent_diff ^ 2)) / RENT_SIGMA_SQ)
      in dist_w * rent_penalty)"

text \<open>
  One turn of the inner loop over \<open>j\<close>; the accumulator is
  \<open>(total_weight, weighted_rent)\<close>.
\<close>

definition smooth_acc ::
  "(heat_point \<Rightarrow> heat_point \<Rightarrow> real \<Rightarrow> real) \<Rightarrow> heat_point list \<Rightarrow> nat \<Rightarrow> nat
    \<Rightarrow> real \<times> real \<Rightarrow> real \<times> real" where
  "smooth_acc weight hps i j acc =
     (if i = j then acc
      else (let other = hps ! j; d = dist (hps ! i) other
            in if d < SMOOTH_RADIUS \<and> d > 0 then
                 (let w = weight (hps ! i) other d
                  in (fst acc + w, snd acc + of_int (hp_rent other) * w))
               else acc))"

definition smooth_sums ::
  "(heat_point \<Rightarrow> heat_point \<Rightarrow> real \<Rightarrow> real) \<Rightarrow> heat_point list \<Rightarrow> nat \<Rightarrow> real \<times> real" where
  "smooth_sums weight hps i =
     fold (smooth_acc weight hps i) [0..<length hps] (2, of_int (hp_rent (hps ! i)) * 2)"

definition smooth_point ::
  "(heat_point \<Rightarrow> heat_point \<Rightarrow> real \<Rightarrow> real) \<Rightarrow> heat_point list \<Rightarrow> nat \<Rightarrow> heat_point" where
  "smooth_point weight hps i =
     (let hp = hps ! i; (total_weight, weighted_rent) = smooth_sums weight hps i
      in \<lparr>hp_lat = hp_lat hp, hp_lng = hp_lng hp,
          hp_rent = py_round (weighted_rent / total_weight), hp_count = hp_count hp\<rparr>)"

text \<open>The pass builds a new list; every point reads the list it was given.\<close>

definition smooth ::
  "(heat_point \<Rightarrow> heat_point \<Rightarrow> real \<Rightarrow> real) \<Rightarrow> heat_point list \<Rightarrow> heat_point list" where
  "smooth weight hps = map (smooth_point weight hps) [0..<length hps]"

section \<open>The clamping pass\<close>

definition CLAMP_RADIUS :: real where
  "CLAMP_RADIUS = 0.015"

definition CLAMP_THRESHOLD :: real where
  "CLAMP_THRESHOLD = 1.50"

definition CLAMP_MAX_N :: nat where
  "CLAMP_MAX_N = 10"

text \<open>The rents of the other points within the radius, read from the list as it is now.\<close>

definition clamp_neighbors :: "heat_point list \<Rightarrow> nat \<Rightarrow> int list" where
  "clamp_neighbors hps i =
     map (\<lambda>j. hp_rent (hps ! j))
       (filter (\<lambda>j. i \<noteq> j \<and> dist (hps ! i) (hps ! j) < CLAMP_RADIUS) [0..<length hps])"

text \<open>
  One turn of the outer loop: \<^verbatim>\<open>hp["rent"] = neighbor_med\<close> writes into the list the
  loop is reading.
\<close>

definition clamp_step :: "nat \<Rightarrow> heat_point list \<Rightarrow> heat_point list" where
  "clamp_step i hps =
     (let hp = hps ! i
      in if hp_count hp \<ge> CLAMP_MAX_N then hps
         else (let neighbors = clamp_neighbors hps i
               in if length neighbors \<ge> 1 then
                    (let neighbor_med = middle_sorted neighbors
                     in if of_int (hp_rent hp) > of_int neighbor_med * CLAMP_THRESHOLD
                        then hps[i := hp\<lparr>hp_rent := neighbor_med\<rparr>]
                        else hps)
                  else hps))"

definition clamp :: "heat_point list \<Rightarrow> heat_point list" where
  "clamp hps = fold clamp_step [0..<length hps] hps"

text \<open>
  The clamper of the specification's words, for comparison: every point is judged
  against the list as it was before the pass.
\<close>

definition clamp_snapshot :: "heat_point list \<Rightarrow> heat_point list" where
  "clamp_snapshot hps = map (\<lambda>i. clamp_step i hps ! i) [0..<length hps]"

section \<open>Output order and the two pipelines\<close>

text \<open>\<^verbatim>\<open>heat_points.sort(key=lambda x: (-x["rent"], x["lat"]))\<close>: a stable sort.\<close>

definition sort_output :: "heat_point list \<Rightarrow> heat_point list" where
  "sort_output hps = sort_key (\<lambda>x. (- hp_rent x, hp_lat x)) hps"

definition smoothed_baseline :: "listing list \<Rightarrow> heat_point list" where
  "smoothed_baseline all_raw =
     smooth weight_iso (heat_points_baseline (non_rs_baseline (cleaned all_raw)))"

definition run_baseline :: "listing list \<Rightarrow> listing list \<Rightarrow> heat_point list" where
  "run_baseline listings rented = sort_output (clamp (smoothed_baseline (listings @ rented)))"

text \<open>
  S8 keeps the rented records of the trailing four months: \<^verbatim>\<open>CUTOFF_DATE\<close> is computed
  from \<^verbatim>\<open>datetime.now()\<close>, so the clock is an input of the run. Dates are compared as
  strings.
\<close>

definition rented_recent :: "string \<Rightarrow> listing list \<Rightarrow> listing list" where
  "rented_recent CUTOFF_DATE rented_v2 = filter (\<lambda>r. rented_date r \<ge> CUTOFF_DATE) rented_v2"

definition smoothed_s8 :: "listing list \<Rightarrow> heat_point list" where
  "smoothed_s8 all_raw = smooth weight_aniso (heat_points_s8 (non_rs_s8 (cleaned all_raw)))"

definition run_s8 :: "string \<Rightarrow> listing list \<Rightarrow> listing list \<Rightarrow> heat_point list" where
  "run_s8 CUTOFF_DATE listings rented_v2 =
     sort_output (clamp (smoothed_s8 (listings @ rented_recent CUTOFF_DATE rented_v2)))"

section \<open>Definitions for the statements\<close>

text \<open>
  The drop conditions of the specification's listing filter, in its words: falsy
  coordinates, a rent over the ceiling or under the floor, an excluded property type, a
  bedroom count other than the cohort selector.
\<close>

definition violates :: "listing \<Rightarrow> bool" where
  "violates l =
     ((lat l = 0 \<or> lng l = 0) \<or> rent l > 25000 \<or> rent l < 500
      \<or> upper (ptype l) \<in> BAD_TYPES \<or> beds l \<noteq> Some 1)"

text \<open>The list the clamping loop holds when it reaches point \<open>i\<close>: turns \<open>0\<close> to \<open>i - 1\<close> are done.\<close>

definition clamp_state :: "heat_point list \<Rightarrow> nat \<Rightarrow> heat_point list" where
  "clamp_state hps i = fold clamp_step [0..<i] hps"

text \<open>
  The rents the smoother averages for point \<open>i\<close>: its own, and those of the other points
  closer than the radius and not at distance 0.
\<close>

definition smooth_window :: "heat_point list \<Rightarrow> nat \<Rightarrow> int list" where
  "smooth_window hps i =
     hp_rent (hps ! i) #
     map (\<lambda>j. hp_rent (hps ! j))
       (filter (\<lambda>j. i \<noteq> j \<and> dist (hps ! i) (hps ! j) < SMOOTH_RADIUS \<and> dist (hps ! i) (hps ! j) > 0)
          [0..<length hps])"

text \<open>
  The invariant of the smoother's inner loop: the total weight is at least the anchor 2,
  and the weighted sum lies between \<open>m\<close> and \<open>M\<close> times the total weight.
\<close>

definition acc_between :: "int \<Rightarrow> int \<Rightarrow> real \<times> real \<Rightarrow> bool" where
  "acc_between m M acc \<longleftrightarrow>
     2 \<le> fst acc \<and> of_int m * fst acc \<le> snd acc \<and> snd acc \<le> of_int M * fst acc"

subsection \<open>Example inputs\<close>

text \<open>A one-bedroom record with no type, no neighbourhood and no date.\<close>

definition listing_at :: "real \<Rightarrow> real \<Rightarrow> int \<Rightarrow> listing" where
  "listing_at la lo r =
     \<lparr>beds = Some 1, rent = r, ptype = [], lat = la, lng = lo, neighborhood = None,
      rented_date = []\<rparr>"

text \<open>One record for each way the filter can drop one, and two records it keeps.\<close>

definition raw_mix :: "listing list" where
  "raw_mix =
     [listing_at 40.60 (- 73.92) 3000,
      listing_at 0 (- 73.92) 3000,
      listing_at 40.60 0 3000,
      listing_at 40.60 (- 73.92) 26000,
      (listing_at 40.60 (- 73.92) 3000)\<lparr>ptype := ''Townhouse''\<rparr>,
      listing_at 40.60 (- 73.92) 499,
      (listing_at 40.60 (- 73.92) 3000)\<lparr>beds := Some 2\<rparr>,
      (listing_at 40.60 (- 73.92) 3000)\<lparr>beds := None\<rparr>,
      (listing_at 40.60 (- 73.92) 500)\<lparr>ptype := ''condo''\<rparr>]"

text \<open>The aggregation scenario of the specification: two listings, a third nearby, a fourth far away.\<close>

definition sa :: listing where
  "sa = listing_at 40.60 (- 73.92) 3000"

definition sb :: listing where
  "sb = listing_at 40.601 (- 73.921) 3100"

definition sc :: listing where
  "sc = listing_at 40.70 (- 73.80) 5000"

definition scenario :: "listing list" where
  "scenario = [sa, sa, sb, sc]"

definition cell_hp :: "int \<Rightarrow> nat \<Rightarrow> heat_point" where
  "cell_hp r n = \<lparr>hp_lat = 40.599, hp_lng = - 73.92, hp_rent = r, hp_count = n\<rparr>"

text \<open>Two listings of one cell with different rents.\<close>

definition ca :: listing where
  "ca = listing_at 40.60 (- 73.92) 1000"

definition cb :: listing where
  "cb = listing_at 40.60 (- 73.92) 2000"

definition pair_cell :: "listing list" where
  "pair_cell = [ca, cb]"

text \<open>
  Two cells 0.012 degrees apart, outside the smoothing radius and inside the clamping
  radius, at rents 9000 and 3000.
\<close>

definition da :: listing where
  "da = listing_at 40.60 (- 73.92) 9000"

definition db :: listing where
  "db = listing_at 40.611 (- 73.92) 3000"

definition clamp_demo :: "listing list" where
  "clamp_demo = [da, da, db, db]"

definition hi_hp :: heat_point where
  "hi_hp = \<lparr>hp_lat = 40.599, hp_lng = - 73.92, hp_rent = 9000, hp_count = 2\<rparr>"

definition lo_hp :: heat_point where
  "lo_hp = \<lparr>hp_lat = 40.611, hp_lng = - 73.92, hp_rent = 3000, hp_count = 2\<rparr>"

text \<open>
  Four heat points on a meridian: \<open>pA\<close> is within the clamping radius of the other three,
  \<open>pB\<close> of \<open>pA\<close> alone.
\<close>

definition pA :: heat_point where
  "pA = \<lparr>hp_lat = 40.70, hp_lng = - 73.9, hp_rent = 9000, hp_count = 3\<rparr>"

definition pB :: heat_point where
  "pB = \<lparr>hp_lat = 40.71, hp_lng = - 73.9, hp_rent = 5000, hp_count = 3\<rparr>"

definition pC :: heat_point where
  "pC = \<lparr>hp_lat = 40.69, hp_lng = - 73.9, hp_rent = 1000, hp_count = 3\<rparr>"

definition pD :: heat_point where
  "pD = \<lparr>hp_lat = 40.688, hp_lng = - 73.9, hp_rent = 1000, hp_count = 3\<rparr>"

definition line_pts :: "heat_point list" where
  "line_pts = [pA, pB, pC, pD]"

text \<open>Two heat points 0.005 degrees apart, inside the smoothing radius.\<close>

definition qa :: heat_point where
  "qa = \<lparr>hp_lat = 40.700, hp_lng = - 73.900, hp_rent = 3000, hp_count = 2\<rparr>"

definition qb :: heat_point where
  "qb = \<lparr>hp_lat = 40.703, hp_lng = - 73.904, hp_rent = 5000, hp_count = 2\<rparr>"

definition near_pts :: "heat_point list" where
  "near_pts = [qa, qb]"

text \<open>
  A cleaned listing on the Upper West Side of Manhattan with no neighbourhood label: no
  threshold rule of either classifier names a region for it.
\<close>

definition unmatched :: listing where
  "unmatched = listing_at 40.78 (- 73.99) 3000"

text \<open>Four listings of one coarse cell, one of them at 1600.\<close>

definition sd :: listing where
  "sd = listing_at 40.60 (- 73.92) 1600"

definition rs_demo :: "listing list" where
  "rs_demo = [sa, sa, sa, sd]"

text \<open>Two rented records of 15 June 2024.\<close>

definition ra :: listing where
  "ra = sa\<lparr>rented_date := ''2024-06-15''\<rparr>"

definition rented_pair :: "listing list" where
  "rented_pair = [ra, ra]"

section \<open>Facts about the built-ins\<close>

subsection \<open>Rounding\<close>

lemma py_round_lower: "of_int m \<le> x \<Longrightarrow> m \<le> py_round x"
proof -
  assume "of_int m \<le> x"
  then have "m \<le> \<lfloor>x\<rfloor>" by (simp add: le_floor_iff)
  then show ?thesis by (simp add: py_round_def Let_def)
qed

lemma py_round_upper: "x \<le> of_int M \<Longrightarrow> py_round x \<le> M"
proof -
  assume a: "x \<le> of_int M"
  then have le: "\<lfloor>x\<rfloor> \<le> M" by (simp add: floor_le_iff)
  show ?thesis
  proof (cases "\<lfloor>x\<rfloor> = M")
    case True
    then have "x - of_int \<lfloor>x\<rfloor> \<le> 0" using a by simp
    then show ?thesis using True by (simp add: py_round_def Let_def)
  next
    case False
    then have "\<lfloor>x\<rfloor> + 1 \<le> M" using le by simp
    then show ?thesis using le by (simp add: py_round_def Let_def)
  qed
qed

lemma py_round_of_int: "py_round (of_int n) = n"
  by (simp add: py_round_def)

subsection \<open>Middle elements and medians\<close>

lemma middle_sorted_mem: "xs \<noteq> [] \<Longrightarrow> middle_sorted xs \<in> set xs"
proof -
  assume "xs \<noteq> []"
  then have "length xs div 2 < length (sort xs)" by (cases xs) auto
  then have "sort xs ! (length xs div 2) \<in> set (sort xs)" by (rule nth_mem)
  then show ?thesis by (simp add: middle_sorted_def)
qed

lemma median_odd: "odd (length xs) \<Longrightarrow> median xs = of_int (middle_sorted xs)"
  by (simp add: median_def middle_sorted_def Let_def)

lemma median_le_middle: "xs \<noteq> [] \<Longrightarrow> median xs \<le> of_int (middle_sorted xs)"
proof (cases "odd (length xs)")
  case True
  then show ?thesis by (simp add: median_odd)
next
  case False
  assume "xs \<noteq> []"
  then have k: "length xs div 2 < length (sort xs)" by (cases xs) auto
  have "sort xs ! (length xs div 2 - 1) \<le> sort xs ! (length xs div 2)"
    using k by (intro sorted_nth_mono) simp_all
  then show ?thesis using False by (simp add: median_def middle_sorted_def Let_def)
qed

lemma median_ge:
  assumes "xs \<noteq> []" "\<forall>x \<in> set xs. m \<le> x"
  shows "of_int m \<le> median xs"
proof -
  have k: "length xs div 2 < length (sort xs)" using assms(1) by (cases xs) auto
  then have "sort xs ! (length xs div 2) \<in> set (sort xs)"
    and "sort xs ! (length xs div 2 - 1) \<in> set (sort xs)"
    by (simp_all del: set_sort add: less_imp_diff_less)
  then have "m \<le> sort xs ! (length xs div 2)" "m \<le> sort xs ! (length xs div 2 - 1)"
    using assms(2) by simp_all
  then show ?thesis by (simp add: median_def Let_def)
qed

lemma mean_ge:
  assumes "rents \<noteq> []" "\<forall>r \<in> set rents. m \<le> r"
  shows "of_int m \<le> mean rents"
proof -
  have "sum_list (map (\<lambda>r. m) rents) \<le> sum_list (map (\<lambda>r. r) rents)"
    using assms(2) by (intro sum_list_mono) simp
  then have "m * int (length rents) \<le> sum_list rents"
    by (simp add: sum_list_replicate map_replicate_const mult.commute)
  then have "real_of_int (m * int (length rents)) \<le> of_int (sum_list rents)"
    by (simp only: of_int_le_iff)
  then have "of_int m * real (length rents) \<le> of_int (sum_list rents)" by simp
  moreover have "0 < real (length rents)" using assms(1) by simp
  ultimately show ?thesis by (simp add: mean_def pos_le_divide_eq)
qed

lemma mean_real_ge:
  assumes "xs \<noteq> []" "\<forall>x \<in> set xs. m \<le> x"
  shows "(m::real) \<le> sum_list xs / of_nat (length xs)"
proof -
  have "sum_list (map (\<lambda>r. m) xs) \<le> sum_list (map (\<lambda>r. r) xs)"
    using assms(2) by (intro sum_list_mono) simp
  then have "m * real (length xs) \<le> sum_list xs"
    by (simp add: sum_list_replicate map_replicate_const mult.commute)
  moreover have "0 < real (length xs)" using assms(1) by simp
  ultimately show ?thesis by (simp add: pos_le_divide_eq)
qed

lemma length_filter_mono:
  "(\<And>x. x \<in> set xs \<Longrightarrow> P x \<Longrightarrow> Q x) \<Longrightarrow> length (filter P xs) \<le> length (filter Q xs)"
  by (induction xs) auto

subsection \<open>Dictionaries of lists\<close>

lemma dict_append_cases:
  "(k, vs) \<in> set (dict_append k0 v d) \<Longrightarrow>
     (k, vs) \<in> set d \<or> (\<exists>vs'. (k, vs') \<in> set d \<and> vs = vs' @ [v]) \<or> vs = [v]"
proof (induction d)
  case Nil
  then show ?case by simp
next
  case (Cons p d)
  obtain k' vs0 where p: "p = (k', vs0)" by (cases p)
  show ?case
  proof (cases "k0 = k'")
    case True
    then show ?thesis using Cons.prems p by auto
  next
    case False
    then have "(k, vs) = (k', vs0) \<or> (k, vs) \<in> set (dict_append k0 v d)"
      using Cons.prems p by simp
    then show ?thesis using Cons.IH p by auto
  qed
qed

lemma foldl_dict_append_groups:
  assumes "\<And>k vs. (k, vs) \<in> set d \<Longrightarrow> vs \<noteq> [] \<and> set vs \<subseteq> S" "val ` set xs \<subseteq> S"
    "(k, vs) \<in> set (foldl (\<lambda>d x. dict_append (key x) (val x) d) d xs)"
  shows "vs \<noteq> [] \<and> set vs \<subseteq> S"
  using assms
proof (induction xs arbitrary: d)
  case Nil
  then show ?case by simp
next
  case (Cons x xs)
  have "\<And>k vs. (k, vs) \<in> set (dict_append (key x) (val x) d) \<Longrightarrow> vs \<noteq> [] \<and> set vs \<subseteq> S"
  proof -
    fix k vs assume "(k, vs) \<in> set (dict_append (key x) (val x) d)"
    from dict_append_cases [OF this] show "vs \<noteq> [] \<and> set vs \<subseteq> S"
      using Cons.prems(1,2) by fastforce
  qed
  then show ?case using Cons.IH [of "dict_append (key x) (val x) d"] Cons.prems by simp
qed

text \<open>Every group is non-empty and holds values of the input.\<close>

lemma group_by_groups:
  "(k, vs) \<in> set (group_by key val xs) \<Longrightarrow> vs \<noteq> [] \<and> set vs \<subseteq> val ` set xs"
  using foldl_dict_append_groups [of "[]" "val ` set xs" val xs k vs key]
  by (simp add: group_by_def)

lemma map_of_dict_append:
  "map_of (dict_append k v d) k' =
     (if k' = k then Some ((case map_of d k of None \<Rightarrow> [] | Some vs \<Rightarrow> vs) @ [v]) else map_of d k')"
  by (induction d) auto

lemma map_of_foldl_dict_append:
  "map_of (foldl (\<lambda>d x. dict_append (key x) (val x) d) d xs) k =
     (if map_of d k = None \<and> filter (\<lambda>x. key x = k) xs = [] then None
      else Some ((case map_of d k of None \<Rightarrow> [] | Some vs \<Rightarrow> vs) @ map val (filter (\<lambda>x. key x = k) xs)))"
proof (induction xs arbitrary: d)
  case Nil
  then show ?case by (auto split: option.splits)
next
  case (Cons x xs)
  show ?case by (simp add: Cons.IH map_of_dict_append split: option.splits)
qed

text \<open>The group of a key is the values of the inputs with that key, in input order.\<close>

lemma map_of_group_by:
  "map_of (group_by key val xs) k =
     (if filter (\<lambda>x. key x = k) xs = [] then None else Some (map val (filter (\<lambda>x. key x = k) xs)))"
  by (simp add: group_by_def map_of_foldl_dict_append)

lemma fst_dict_append:
  "map fst (dict_append k v d) = (if k \<in> fst ` set d then map fst d else map fst d @ [k])"
  by (induction d) force+

lemma distinct_group_by: "distinct (map fst (group_by key val xs))"
proof -
  have "distinct (map fst d) \<Longrightarrow> distinct (map fst (foldl (\<lambda>d x. dict_append (key x) (val x) d) d xs))" for d
  proof (induction xs arbitrary: d)
    case Nil
    then show ?case by simp
  next
    case (Cons x xs)
    have "distinct (map fst (dict_append (key x) (val x) d))"
      using Cons.prems by (simp add: fst_dict_append)
    then show ?case using Cons.IH by simp
  qed
  then show ?thesis by (simp add: group_by_def)
qed

lemma map_of_filter_distinct:
  "distinct (map fst d) \<Longrightarrow>
     map_of (filter (\<lambda>(k, v). P v) d) k = (case map_of d k of None \<Rightarrow> None | Some v \<Rightarrow> if P v then Some v else None)"
proof (induction d)
  case Nil
  then show ?case by simp
next
  case (Cons p d)
  obtain k' v' where p: "p = (k', v')" by (cases p)
  have "k = k' \<Longrightarrow> map_of d k = None" using Cons.prems p by (simp add: map_of_eq_None_iff)
  moreover have "k = k' \<Longrightarrow> map_of (filter (\<lambda>(k, v). P v) d) k = None"
    using Cons.prems p by (auto simp: map_of_eq_None_iff)
  ultimately show ?case using Cons p by (auto split: option.splits)
qed

section \<open>The listing filter\<close>

text \<open>
  C2. For every sequence of raw records, the cohort is the input without exactly the
  records that have a falsy latitude or longitude, a rent over 25000, a rent under 500, an
  excluded property type after upper-casing, or a bedroom count other than 1. The kept
  records are the input's own, in the input's order.
\<close>

theorem cleaned_spec: "cleaned all_raw = filter (\<lambda>l. \<not> violates l) all_raw"
  unfolding cleaned_def one_br_def filter_filter
  by (rule filter_cong) (auto simp: keep_def violates_def)

theorem cleaned_spec_witness:
  "cleaned raw_mix =
     [listing_at 40.60 (- 73.92) 3000, (listing_at 40.60 (- 73.92) 500)\<lparr>ptype := ''condo''\<rparr>]"
  using cleaned_spec [of raw_mix]
  by (simp add: raw_mix_def violates_def listing_at_def BAD_TYPES_def upper_def upper_char_def)

text \<open>Every listing of the cohort has a rent within the bounds.\<close>

lemma cleaned_rent: "l \<in> set (cleaned all_raw) \<Longrightarrow> 500 \<le> rent l \<and> rent l \<le> 25000"
  by (auto simp: cleaned_def keep_def split: if_splits)

lemma keep_listing_at:
  "keep (listing_at la lo r) \<longleftrightarrow> la \<noteq> 0 \<and> lo \<noteq> 0 \<and> 500 \<le> r \<and> r \<le> 25000"
  by (auto simp: keep_def listing_at_def upper_def BAD_TYPES_def)

section \<open>The region classifier\<close>

lemma no_entry: "map_of BOROUGH_MAP [] = None" "map_of REGION_MAP [] = None"
  by code_simp+

lemma region_values: "''Unknown'' \<notin> set (map snd REGION_MAP)"
  by code_simp

text \<open>The S8 classifier has no path to the sentinel: its last rule is the label Queens.\<close>

lemma get_region_never_unknown: "get_region l \<noteq> ''Unknown''"
proof (cases "map_of REGION_MAP (case neighborhood l of None \<Rightarrow> [] | Some s \<Rightarrow> s)")
  case None
  then show ?thesis by (simp add: get_region_def Let_def)
next
  case (Some b)
  then have "b \<in> set (map snd REGION_MAP)" by (metis map_of_SomeD set_zip_rightD zip_map_fst_snd)
  then have "b \<noteq> ''Unknown''" using region_values by metis
  then show ?thesis using Some by (simp add: get_region_def Let_def)
qed

text \<open>
  C8. The classifier is to return the sentinel \<open>Unknown\<close> for a listing whose
  neighbourhood has no table entry and whose coordinates match no threshold rule. The
  baseline classifier does; the S8 classifier labels the same listing \<open>Queens\<close>, although
  the generator still collects the listings labelled \<open>Unknown\<close> after classifying.
\<close>

theorem get_region_unmatched:
  "get_region unmatched = ''Queens'' \<and> get_borough unmatched = ''Unknown''"
  by (simp add: get_region_def get_borough_def unmatched_def listing_at_def no_entry)

section \<open>The local median index and the rent-stabilization filter\<close>

text \<open>
  The index, cell by cell: a lookup returns the median of the rents of the cohort's
  listings in the coarse cell of the query point, when there are three or more of them.
\<close>

lemma get_spatial_median_eq:
  "get_spatial_median (spatial_medians cohort) la lo =
     (let rents = map rent (filter (\<lambda>l. spatial_key (lat l) (lng l) = spatial_key la lo) cohort)
      in if length rents \<ge> 3 then Some (median rents) else None)"
proof -
  have "map_of (map (\<lambda>(key, rents). (key, median rents)) d) k = map_option median (map_of d k)"
    for d and k :: "real \<times> real"
    by (induction d) auto
  then show ?thesis
    by (simp add: get_spatial_median_def spatial_medians_def spatial_cells_def
        map_of_filter_distinct [OF distinct_group_by] map_of_group_by Let_def)
qed

lemma spatial_medians_ge:
  assumes "\<forall>l \<in> set cohort. m \<le> rent l" "(key, sm) \<in> set (spatial_medians cohort)"
  shows "of_int m \<le> sm"
proof -
  from assms(2) obtain rents where g: "(key, rents) \<in> set (spatial_cells cohort)"
    and sm: "sm = median rents"
    by (auto simp: spatial_medians_def)
  from g have "rents \<noteq> [] \<and> set rents \<subseteq> rent ` set cohort"
    unfolding spatial_cells_def by (rule group_by_groups)
  then have "rents \<noteq> []" "\<forall>x \<in> set rents. m \<le> x" using assms(1) by auto
  then show ?thesis unfolding sm by (rule median_ge)
qed

lemma below_ratio_mono:
  assumes "\<forall>l \<in> set cohort. 0 \<le> rent l" "tau1 \<le> tau2"
    "below_ratio tau1 (spatial_medians cohort) l"
  shows "below_ratio tau2 (spatial_medians cohort) l"
proof -
  from assms(3) obtain sm
    where look: "get_spatial_median (spatial_medians cohort) (lat l) (lng l) = Some sm"
    and ne: "sm \<noteq> 0" and lt: "of_int (rent l) < sm * tau1"
    by (auto simp: below_ratio_def split: option.splits)
  from look have "(spatial_key (lat l) (lng l), sm) \<in> set (spatial_medians cohort)"
    by (simp add: get_spatial_median_def map_of_SomeD)
  then have "0 \<le> sm" using spatial_medians_ge [OF assms(1)] by fastforce
  then have "sm * tau1 \<le> sm * tau2" using assms(2) by (simp add: mult_left_mono)
  then show ?thesis using look ne lt by (simp add: below_ratio_def)
qed

lemma rs_flagged_mono:
  assumes "\<forall>l \<in> set cohort. 0 \<le> rent l" "tau1 \<le> tau2"
  shows "rs_flagged_s8_at tau1 cohort \<le> rs_flagged_s8_at tau2 cohort"
    and "rs_flagged_baseline_at tau1 cohort \<le> rs_flagged_baseline_at tau2 cohort"
  unfolding rs_flagged_s8_at_def rs_flagged_baseline_at_def
  using below_ratio_mono [OF assms]
  by (auto intro!: length_filter_mono simp: is_rs_s8_def is_rs_baseline_def split: if_splits)

lemma non_rs_subset:
  "set (non_rs_baseline cohort) \<subseteq> set cohort" "set (non_rs_s8 cohort) \<subseteq> set cohort"
  by (auto simp: non_rs_baseline_def non_rs_baseline_at_def non_rs_s8_def non_rs_s8_at_def)

subsection \<open>The filter on the examples\<close>

lemma demo_fields:
  "rent da = 9000" "rent db = 3000" "lat da = 40.60" "lat db = 40.611" "lng da = - 73.92"
  "lng db = - 73.92" "neighborhood da = None" "neighborhood db = None"
  by (simp_all add: da_def db_def listing_at_def)

lemma cleaned_demo: "cleaned clamp_demo = clamp_demo"
  by (simp add: cleaned_def one_br_def clamp_demo_def da_def db_def keep_listing_at)
    (simp add: listing_at_def)

lemma spatial_key_demo:
  "spatial_key (lat da) (lng da) = (40.6, - 73.92)" "spatial_key (lat db) (lng db) = (40.61, - 73.92)"
  by (simp_all add: demo_fields spatial_key_def SPATIAL_GRID_def py_round_def Let_def)

lemma no_median_demo:
  "get_spatial_median (spatial_medians clamp_demo) (lat da) (lng da) = None"
  "get_spatial_median (spatial_medians clamp_demo) (lat db) (lng db) = None"
  by (simp_all add: get_spatial_median_eq clamp_demo_def spatial_key_demo)

lemma non_rs_demo: "non_rs_baseline clamp_demo = clamp_demo" "non_rs_s8 clamp_demo = clamp_demo"
proof -
  have "\<not> is_rs_baseline t (spatial_medians clamp_demo) da"
    "\<not> is_rs_baseline t (spatial_medians clamp_demo) db"
    "\<not> is_rs_s8 t (spatial_medians clamp_demo) da"
    "\<not> is_rs_s8 t (spatial_medians clamp_demo) db" for t
    by (simp_all add: is_rs_baseline_def is_rs_s8_def below_ratio_def no_median_demo
        demo_fields(1,2))
  then show "non_rs_baseline clamp_demo = clamp_demo" "non_rs_s8 clamp_demo = clamp_demo"
    by (simp_all add: non_rs_baseline_def non_rs_baseline_at_def non_rs_s8_def non_rs_s8_at_def)
      (simp_all add: clamp_demo_def)
qed

lemma cleaned_rs_demo: "cleaned rs_demo = rs_demo"
  by (simp add: cleaned_def one_br_def rs_demo_def sa_def sd_def keep_listing_at)
    (simp add: listing_at_def)

lemma rs_demo_fields: "rent sa = 3000" "rent sd = 1600"
  by (simp_all add: sa_def sd_def listing_at_def)

lemma rs_demo_keys: "spatial_key (lat sd) (lng sd) = spatial_key (lat sa) (lng sa)"
  by (simp add: sa_def sd_def listing_at_def)

lemma rs_demo_median:
  "get_spatial_median (spatial_medians rs_demo) (lat sa) (lng sa) = Some 3000"
  "get_spatial_median (spatial_medians rs_demo) (lat sd) (lng sd) = Some 3000"
  by (simp_all add: get_spatial_median_eq rs_demo_def rs_demo_keys rs_demo_fields median_def)

lemma rs_demo_flags:
  "rs_flagged_s8_at 0.50 rs_demo = 0" "rs_flagged_s8_at 0.60 rs_demo = 1"
proof -
  have flags: "\<not> is_rs_s8 0.50 (spatial_medians rs_demo) sa"
    "\<not> is_rs_s8 0.50 (spatial_medians rs_demo) sd"
    "\<not> is_rs_s8 0.60 (spatial_medians rs_demo) sa"
    "is_rs_s8 0.60 (spatial_medians rs_demo) sd"
    by (simp_all add: is_rs_s8_def below_ratio_def rs_demo_median rs_demo_fields)
  have list: "filter P rs_demo = filter P [sa, sa, sa, sd]" for P
    by (simp add: rs_demo_def)
  show "rs_flagged_s8_at 0.50 rs_demo = 0" "rs_flagged_s8_at 0.60 rs_demo = 1"
    unfolding rs_flagged_s8_at_def list using flags by simp_all
qed

text \<open>
  C9. For every cohort the listing filter can produce, and the local median index built
  from it, raising the ratio never lowers the number of listings flagged, in the S8 filter
  (ratio rule alone) and in the baseline filter (digit rule, then ratio rule). A listing
  whose coarse cell holds fewer than three listings has no stored median, and a listing
  with no stored median is not flagged by the ratio rule, whatever the ratio.
\<close>

theorem rs_flagged_monotone:
  assumes "tau1 \<le> tau2"
  shows "rs_flagged_s8_at tau1 (cleaned all_raw) \<le> rs_flagged_s8_at tau2 (cleaned all_raw)
       \<and> rs_flagged_baseline_at tau1 (cleaned all_raw) \<le> rs_flagged_baseline_at tau2 (cleaned all_raw)
       \<and> (length (filter (\<lambda>l'. spatial_key (lat l') (lng l') = spatial_key (lat l) (lng l)) cohort) < 3
            \<longrightarrow> get_spatial_median (spatial_medians cohort) (lat l) (lng l) = None)
       \<and> (get_spatial_median medians (lat l) (lng l) = None \<longrightarrow> \<not> below_ratio tau medians l)"
proof -
  have "\<forall>l \<in> set (cleaned all_raw). 0 \<le> rent l" using cleaned_rent by fastforce
  from rs_flagged_mono [OF this assms] show ?thesis
    by (simp add: get_spatial_median_eq below_ratio_def)
qed

theorem rs_flagged_monotone_witness:
  "(0.50::real) \<le> 0.60
   \<and> rs_flagged_s8_at 0.50 (cleaned rs_demo) = 0 \<and> rs_flagged_s8_at 0.60 (cleaned rs_demo) = 1
   \<and> rs_flagged_s8_at 0.50 (cleaned rs_demo) \<le> rs_flagged_s8_at 0.60 (cleaned rs_demo)
   \<and> rs_flagged_baseline_at 0.50 (cleaned rs_demo) \<le> rs_flagged_baseline_at 0.60 (cleaned rs_demo)
   \<and> get_spatial_median (spatial_medians clamp_demo) (lat da) (lng da) = None
   \<and> \<not> below_ratio 0.60 (spatial_medians clamp_demo) da"
proof -
  have le: "(0.50::real) \<le> 0.60" by simp
  have few: "length (filter (\<lambda>l'. spatial_key (lat l') (lng l') = spatial_key (lat da) (lng da))
      clamp_demo) < 3"
    by (simp add: clamp_demo_def spatial_key_demo)
  have flags: "rs_flagged_s8_at 0.50 (cleaned rs_demo) = 0"
    "rs_flagged_s8_at 0.60 (cleaned rs_demo) = 1"
    by (simp_all only: cleaned_rs_demo rs_demo_flags)
  from rs_flagged_monotone [OF le, of rs_demo da clamp_demo "spatial_medians clamp_demo" "0.60"] few
  show ?thesis using flags by simp
qed

section \<open>The grid aggregator\<close>

lemma kept_cells_groups:
  "(key, lsts) \<in> set (kept_cells non_rs) \<Longrightarrow>
     MIN_CELL_COUNT \<le> length lsts \<and> lsts \<noteq> [] \<and> set lsts \<subseteq> set non_rs"
  using group_by_groups [of key lsts grid_key "\<lambda>l. l" non_rs]
  by (auto simp: kept_cells_def grid_cells_def)

lemma cell_rent_s8_ge:
  assumes "lsts \<noteq> []" "\<forall>l \<in> set lsts. m \<le> rent l"
  shows "of_int m \<le> cell_rent_s8 lsts"
proof -
  define by_nhood where
    "by_nhood = group_by (\<lambda>l. case neighborhood l of None \<Rightarrow> ''Unknown'' | Some s \<Rightarrow> s) rent lsts"
  have groups: "\<And>k rents. (k, rents) \<in> set by_nhood \<Longrightarrow> of_int m \<le> mean rents"
  proof -
    fix k rents assume "(k, rents) \<in> set by_nhood"
    then have "rents \<noteq> [] \<and> set rents \<subseteq> rent ` set lsts"
      unfolding by_nhood_def by (rule group_by_groups)
    then show "of_int m \<le> mean rents" using assms(2) by (intro mean_ge) auto
  qed
  have plain: "of_int m \<le> mean (map rent lsts)"
    using assms by (intro mean_ge) auto
  show ?thesis
  proof (cases "length by_nhood > 1")
    case True
    then have ne: "map (\<lambda>(nhood, rents). mean rents) by_nhood \<noteq> []" by auto
    have "\<forall>x \<in> set (map (\<lambda>(nhood, rents). mean rents) by_nhood). of_int m \<le> x"
      using groups by auto
    from mean_real_ge [OF ne this] show ?thesis
      using True by (simp add: cell_rent_s8_def by_nhood_def [symmetric] Let_def)
  next
    case False
    then show ?thesis using plain by (simp add: cell_rent_s8_def by_nhood_def [symmetric] Let_def)
  qed
qed

lemma heat_points_baseline_rent:
  assumes "\<forall>l \<in> set non_rs. m \<le> rent l" "hp \<in> set (heat_points_baseline non_rs)"
  shows "m \<le> hp_rent hp"
proof -
  from assms(2) obtain clat clng gs lsts where
    cell: "((clat, clng, gs), lsts) \<in> set (kept_cells non_rs)"
    and hp: "hp_rent hp = middle_sorted (map rent lsts)"
    by (auto simp: heat_points_baseline_def)
  from kept_cells_groups [OF cell] have "lsts \<noteq> []" "set lsts \<subseteq> set non_rs" by simp_all
  then have "middle_sorted (map rent lsts) \<in> rent ` set non_rs"
    using middle_sorted_mem [of "map rent lsts"] by auto
  then show ?thesis using assms(1) hp by auto
qed

lemma heat_points_s8_rent:
  assumes "\<forall>l \<in> set non_rs. m \<le> rent l" "hp \<in> set (heat_points_s8 non_rs)"
  shows "m \<le> hp_rent hp"
proof -
  from assms(2) obtain clat clng gs lsts where
    cell: "((clat, clng, gs), lsts) \<in> set (kept_cells non_rs)"
    and hp: "hp_rent hp = py_round (cell_rent_s8 lsts)"
    by (auto simp: heat_points_s8_def)
  from kept_cells_groups [OF cell] have "lsts \<noteq> []" "set lsts \<subseteq> set non_rs" by simp_all
  then have "of_int m \<le> cell_rent_s8 lsts" using assms(1) by (intro cell_rent_s8_ge) auto
  then show ?thesis using hp by (simp add: py_round_lower)
qed

lemma heat_points_count:
  "hp \<in> set (heat_points_baseline non_rs) \<or> hp \<in> set (heat_points_s8 non_rs)
     \<Longrightarrow> MIN_CELL_COUNT \<le> hp_count hp"
  using kept_cells_groups [of _ _ non_rs]
  by (auto simp: heat_points_baseline_def heat_points_s8_def)

subsection \<open>The scenario of the specification\<close>

lemmas key_eval = grid_key_def get_grid_size_def py_round_def py_round_nd_def Let_def listing_at_def

lemma grid_key_sa: "grid_key sa = (40.599, - 73.92, 0.003)"
  by (simp add: sa_def key_eval)

lemma grid_key_sb: "grid_key sb = (40.602, - 73.92, 0.003)"
  by (simp add: sb_def key_eval)

lemma grid_key_sc: "grid_key sc = (40.701, - 73.8, 0.003)"
  by (simp add: sc_def key_eval)

lemma grid_cells_scenario:
  "grid_cells scenario =
     [((40.599, - 73.92, 0.003), [sa, sa]), ((40.602, - 73.92, 0.003), [sb]),
      ((40.701, - 73.8, 0.003), [sc])]"
  by (simp add: grid_cells_def group_by_def scenario_def grid_key_sa grid_key_sb grid_key_sc)

lemma kept_cells_scenario: "kept_cells scenario = [((40.599, - 73.92, 0.003), [sa, sa])]"
  by (simp add: kept_cells_def grid_cells_scenario MIN_CELL_COUNT_def)

lemma sa_fields: "rent sa = 3000" "neighborhood sa = None"
  by (simp_all add: sa_def listing_at_def)

lemma heat_points_baseline_scenario: "heat_points_baseline scenario = [cell_hp 3000 2]"
  by (simp add: heat_points_baseline_def kept_cells_scenario middle_sorted_def sa_fields
      cell_hp_def py_round_nd_def py_round_def Let_def)

lemma heat_points_s8_scenario: "heat_points_s8 scenario = [cell_hp 3000 2]"
  by (simp add: heat_points_s8_def kept_cells_scenario cell_rent_s8_def mean_def group_by_def
      sa_fields cell_hp_def py_round_nd_def py_round_def Let_def)

text \<open>
  C3, as stated: the two listings at (40.60, -73.92) and the one at (40.601, -73.921) were
  to merge into one heat point with count 3. Neither generator emits a heat point with
  count 3 for the scenario.
\<close>

theorem scenario_count_counterexample:
  "map hp_count (heat_points_s8 scenario) \<noteq> [3]
   \<and> map hp_count (heat_points_baseline scenario) \<noteq> [3]"
  by (simp add: heat_points_s8_scenario heat_points_baseline_scenario cell_hp_def)

text \<open>
  C3, amended. With cell size 0.003, latitude 40.60 rounds to the cell centre 40.599 and
  latitude 40.601 to the centre 40.602, so the third listing has a cell of its own. Both
  generators emit exactly one heat point for the scenario, at (40.599, -73.92), with
  count 2 and rent 3000; the third and the fourth listing are each alone in a cell and are
  dropped.
\<close>

theorem scenario_cells:
  "grid_key sa \<noteq> grid_key sb
   \<and> kept_cells scenario = [((40.599, - 73.92, 0.003), [sa, sa])]
   \<and> heat_points_s8 scenario
       = [\<lparr>hp_lat = 40.599, hp_lng = - 73.92, hp_rent = 3000, hp_count = 2\<rparr>]
   \<and> heat_points_baseline scenario
       = [\<lparr>hp_lat = 40.599, hp_lng = - 73.92, hp_rent = 3000, hp_count = 2\<rparr>]"
  by (simp add: heat_points_s8_scenario heat_points_baseline_scenario kept_cells_scenario
      cell_hp_def grid_key_sa grid_key_sb)

subsection \<open>The representative rent of the baseline\<close>

lemma grid_key_pair:
  "grid_key ca = (40.599, - 73.92, 0.003)" "grid_key cb = (40.599, - 73.92, 0.003)"
  by (simp_all add: ca_def cb_def key_eval)

lemma kept_cells_pair: "kept_cells pair_cell = [((40.599, - 73.92, 0.003), [ca, cb])]"
  by (simp add: kept_cells_def grid_cells_def group_by_def pair_cell_def grid_key_pair
      MIN_CELL_COUNT_def)

lemma pair_rents: "rent ca = 1000" "rent cb = 2000"
  by (simp_all add: ca_def cb_def listing_at_def)

text \<open>
  C4, as stated: the emitted rent was to be the statistical median of the cell's rents. A
  cell with the rents 1000 and 2000 gets the rent 2000; the statistical median is 1500.
\<close>

theorem cell_median_counterexample:
  "map hp_rent (heat_points_baseline pair_cell) = [2000] \<and> median (map rent pair_cell) = 1500"
proof -
  have "map hp_rent (heat_points_baseline pair_cell) = [2000]"
    by (simp add: heat_points_baseline_def kept_cells_pair middle_sorted_def pair_rents)
  moreover have "median (map rent pair_cell) = 1500"
    by (simp add: pair_cell_def pair_rents median_def)
  ultimately show ?thesis by simp
qed

text \<open>
  C4, amended. For every surviving cell the baseline emits the element at index
  \<open>n div 2\<close> of the cell's sorted rents (the upper of the two middle elements when the
  cell has an even number of listings). It is the rent of one of the cell's listings, it
  is never below the statistical median, and it is the statistical median when the cell
  has an odd number of listings.
\<close>

theorem cell_rent_is_upper_median:
  assumes "i < length (kept_cells non_rs)"
  shows "hp_rent (heat_points_baseline non_rs ! i)
           = sort (map rent (snd (kept_cells non_rs ! i)))
               ! (length (snd (kept_cells non_rs ! i)) div 2)
       \<and> hp_rent (heat_points_baseline non_rs ! i) \<in> rent ` set (snd (kept_cells non_rs ! i))
       \<and> median (map rent (snd (kept_cells non_rs ! i)))
           \<le> of_int (hp_rent (heat_points_baseline non_rs ! i))
       \<and> (odd (length (snd (kept_cells non_rs ! i))) \<longrightarrow>
            of_int (hp_rent (heat_points_baseline non_rs ! i))
              = median (map rent (snd (kept_cells non_rs ! i))))"
proof -
  obtain key lsts where c: "kept_cells non_rs ! i = (key, lsts)" by (cases "kept_cells non_rs ! i")
  then have "(key, lsts) \<in> set (kept_cells non_rs)" using assms nth_mem by metis
  then have ne: "map rent lsts \<noteq> []" using kept_cells_groups by auto
  have hp: "hp_rent (heat_points_baseline non_rs ! i) = middle_sorted (map rent lsts)"
    using assms c by (simp add: heat_points_baseline_def split: prod.split)
  show ?thesis
    using middle_sorted_mem [OF ne] median_le_middle [OF ne] median_odd [of "map rent lsts"]
    by (simp add: c hp) (simp add: middle_sorted_def)
qed

theorem cell_rent_is_upper_median_witness:
  "0 < length (kept_cells pair_cell)
   \<and> hp_rent (heat_points_baseline pair_cell ! 0) = 2000
   \<and> median [1000, 2000] \<le> of_int (hp_rent (heat_points_baseline pair_cell ! 0))"
  using cell_rent_is_upper_median [of 0 pair_cell]
  by (simp add: kept_cells_pair pair_rents middle_sorted_def)

section \<open>The smoothing pass\<close>

lemma length_smooth [simp]: "length (smooth weight hps) = length hps"
  by (simp add: smooth_def)

lemma smooth_nth: "i < length hps \<Longrightarrow> smooth weight hps ! i = smooth_point weight hps i"
  by (simp add: smooth_def)

lemma smooth_point_fields:
  "hp_lat (smooth_point weight hps i) = hp_lat (hps ! i) \<and>
   hp_lng (smooth_point weight hps i) = hp_lng (hps ! i) \<and>
   hp_count (smooth_point weight hps i) = hp_count (hps ! i)"
  by (simp add: smooth_point_def Let_def split: prod.split)

lemma smooth_point_rent:
  "hp_rent (smooth_point weight hps i) =
     py_round (snd (smooth_sums weight hps i) / fst (smooth_sums weight hps i))"
  by (simp add: smooth_point_def Let_def split: prod.split)

subsection \<open>The distance tests\<close>

lemma dist_less_iff:
  "0 \<le> r \<Longrightarrow> dist p q < r \<longleftrightarrow> (hp_lat p - hp_lat q)\<^sup>2 + (hp_lng p - hp_lng q)\<^sup>2 < r\<^sup>2"
proof -
  assume r: "0 \<le> r"
  have "sqrt ((hp_lat p - hp_lat q)\<^sup>2 + (hp_lng p - hp_lng q)\<^sup>2) < sqrt (r\<^sup>2)
         \<longleftrightarrow> (hp_lat p - hp_lat q)\<^sup>2 + (hp_lng p - hp_lng q)\<^sup>2 < r\<^sup>2"
    by (rule real_sqrt_less_iff)
  then show ?thesis using r by (simp add: dist_def Let_def)
qed

lemma dist_pos_iff:
  "0 < dist p q \<longleftrightarrow> hp_lat p \<noteq> hp_lat q \<or> hp_lng p \<noteq> hp_lng q"
  by (auto simp: dist_def Let_def sum_power2_gt_zero_iff)

lemma within_smooth_radius:
  "dist p q < SMOOTH_RADIUS \<longleftrightarrow>
     (hp_lat p - hp_lat q) * (hp_lat p - hp_lat q)
       + (hp_lng p - hp_lng q) * (hp_lng p - hp_lng q) < 0.000064"
proof -
  have "0 \<le> SMOOTH_RADIUS" and "SMOOTH_RADIUS\<^sup>2 = 0.000064"
    by (simp_all add: SMOOTH_RADIUS_def power2_eq_square)
  then show ?thesis
    using dist_less_iff [of SMOOTH_RADIUS p q] by (simp only: power2_eq_square)
qed

lemma within_clamp_radius:
  "dist p q < CLAMP_RADIUS \<longleftrightarrow>
     (hp_lat p - hp_lat q) * (hp_lat p - hp_lat q)
       + (hp_lng p - hp_lng q) * (hp_lng p - hp_lng q) < 0.000225"
proof -
  have "0 \<le> CLAMP_RADIUS" and "CLAMP_RADIUS\<^sup>2 = 0.000225"
    by (simp_all add: CLAMP_RADIUS_def power2_eq_square)
  then show ?thesis
    using dist_less_iff [of CLAMP_RADIUS p q] by (simp only: power2_eq_square)
qed

subsection \<open>The weighted average stays within the rents it averages\<close>

lemma acc_between_add:
  assumes "acc_between m M acc" "0 \<le> w" "m \<le> r" "r \<le> M"
  shows "acc_between m M (fst acc + w, snd acc + of_int r * w)"
proof -
  have "of_int m * w \<le> of_int r * w" "of_int r * w \<le> of_int M * w"
    using assms(2-4) by (simp_all add: mult_right_mono)
  then show ?thesis
    using assms(1,2) by (simp add: acc_between_def distrib_left)
qed

lemma smooth_acc_between:
  assumes acc: "acc_between m M acc"
    and w: "\<And>p q d. 0 < d \<Longrightarrow> 0 \<le> weight p q d"
    and r: "i \<noteq> j \<Longrightarrow> dist (hps ! i) (hps ! j) < SMOOTH_RADIUS \<Longrightarrow> 0 < dist (hps ! i) (hps ! j)
            \<Longrightarrow> m \<le> hp_rent (hps ! j) \<and> hp_rent (hps ! j) \<le> M"
  shows "acc_between m M (smooth_acc weight hps i j acc)"
proof (cases "i \<noteq> j \<and> dist (hps ! i) (hps ! j) < SMOOTH_RADIUS \<and> 0 < dist (hps ! i) (hps ! j)")
  case True
  then have "0 \<le> weight (hps ! i) (hps ! j) (dist (hps ! i) (hps ! j))" using w by simp
  moreover have "m \<le> hp_rent (hps ! j)" "hp_rent (hps ! j) \<le> M" using True r by simp_all
  ultimately have "acc_between m M
      (fst acc + weight (hps ! i) (hps ! j) (dist (hps ! i) (hps ! j)),
       snd acc + of_int (hp_rent (hps ! j)) * weight (hps ! i) (hps ! j) (dist (hps ! i) (hps ! j)))"
    using acc by (intro acc_between_add)
  then show ?thesis using True by (simp add: smooth_acc_def Let_def)
next
  case False
  then show ?thesis using acc by (auto simp: smooth_acc_def Let_def)
qed

lemma fold_smooth_acc_between:
  assumes w: "\<And>p q d. 0 < d \<Longrightarrow> 0 \<le> weight p q d"
    and r: "\<And>j. j \<in> set js \<Longrightarrow> i \<noteq> j \<Longrightarrow> dist (hps ! i) (hps ! j) < SMOOTH_RADIUS
            \<Longrightarrow> 0 < dist (hps ! i) (hps ! j) \<Longrightarrow> m \<le> hp_rent (hps ! j) \<and> hp_rent (hps ! j) \<le> M"
    and acc: "acc_between m M acc"
  shows "acc_between m M (fold (smooth_acc weight hps i) js acc)"
  using r acc
proof (induction js arbitrary: acc)
  case Nil
  then show ?case by simp
next
  case (Cons j js)
  have "acc_between m M (smooth_acc weight hps i j acc)"
    using Cons.prems w by (intro smooth_acc_between) auto
  then show ?case using Cons.IH Cons.prems(1) by simp
qed

lemma acc_between_quotient:
  assumes "acc_between m M acc"
  shows "of_int m \<le> snd acc / fst acc \<and> snd acc / fst acc \<le> of_int M"
proof -
  have pos: "0 < fst acc" using assms by (simp add: acc_between_def)
  show ?thesis using assms pos by (simp add: acc_between_def pos_le_divide_eq pos_divide_le_eq)
qed

lemma weight_iso_nonneg: "0 < d \<Longrightarrow> 0 \<le> weight_iso p q d"
  by (simp add: weight_iso_def)

lemma weight_aniso_nonneg: "0 < d \<Longrightarrow> 0 \<le> weight_aniso p q d"
  by (simp add: weight_aniso_def Let_def)

lemma smooth_sums_between:
  assumes w: "\<And>p q d. 0 < d \<Longrightarrow> 0 \<le> weight p q d"
    and r: "\<And>x. x \<in> set (smooth_window hps i) \<Longrightarrow> m \<le> x \<and> x \<le> M"
  shows "acc_between m M (smooth_sums weight hps i)"
proof -
  have own: "m \<le> hp_rent (hps ! i) \<and> hp_rent (hps ! i) \<le> M"
    using r by (simp add: smooth_window_def)
  then have start: "acc_between m M (2, of_int (hp_rent (hps ! i)) * 2)"
    by (simp add: acc_between_def)
  show ?thesis
    unfolding smooth_sums_def
  proof (rule fold_smooth_acc_between [OF w _ start])
    fix j assume "j \<in> set [0..<length hps]" "i \<noteq> j" "dist (hps ! i) (hps ! j) < SMOOTH_RADIUS"
      "0 < dist (hps ! i) (hps ! j)"
    then have "hp_rent (hps ! j) \<in> set (smooth_window hps i)"
      by (simp add: smooth_window_def)
    then show "m \<le> hp_rent (hps ! j) \<and> hp_rent (hps ! j) \<le> M" by (rule r)
  qed
qed

lemma smooth_point_between:
  assumes w: "\<And>p q d. 0 < d \<Longrightarrow> 0 \<le> weight p q d"
    and r: "\<And>x. x \<in> set (smooth_window hps i) \<Longrightarrow> m \<le> x \<and> x \<le> M"
  shows "m \<le> hp_rent (smooth_point weight hps i) \<and> hp_rent (smooth_point weight hps i) \<le> M"
proof -
  have "acc_between m M (smooth_sums weight hps i)" using w r by (rule smooth_sums_between)
  then have "of_int m \<le> snd (smooth_sums weight hps i) / fst (smooth_sums weight hps i)"
    "snd (smooth_sums weight hps i) / fst (smooth_sums weight hps i) \<le> of_int M"
    using acc_between_quotient by blast+
  then show ?thesis by (simp add: smooth_point_rent py_round_lower py_round_upper)
qed

lemma total_weight_ge_2:
  assumes w: "\<And>p q d. 0 < d \<Longrightarrow> 0 \<le> weight p q d"
  shows "2 \<le> fst (smooth_sums weight hps i)"
proof -
  have "\<And>x. x \<in> set (smooth_window hps i) \<Longrightarrow>
          Min (set (smooth_window hps i)) \<le> x \<and> x \<le> Max (set (smooth_window hps i))"
    by simp
  with w have "acc_between (Min (set (smooth_window hps i))) (Max (set (smooth_window hps i)))
      (smooth_sums weight hps i)"
    by (rule smooth_sums_between)
  then show ?thesis by (simp add: acc_between_def)
qed

lemma smooth_rents_ge:
  assumes w: "\<And>p q d. 0 < d \<Longrightarrow> 0 \<le> weight p q d"
    and "\<forall>hp \<in> set hps. m \<le> hp_rent hp" "hp \<in> set (smooth weight hps)"
  shows "m \<le> hp_rent hp"
proof -
  from assms(3) obtain i where i: "i < length hps" and hp: "hp = smooth_point weight hps i"
    by (auto simp: smooth_def)
  define M where "M = Max (set (smooth_window hps i))"
  have "set (smooth_window hps i) \<subseteq> hp_rent ` set hps"
    using i by (auto simp: smooth_window_def)
  then have "\<And>x. x \<in> set (smooth_window hps i) \<Longrightarrow> m \<le> x \<and> x \<le> M"
    using assms(2) by (auto simp: M_def)
  from smooth_point_between [OF w this] show ?thesis using hp by simp
qed

lemma smooth_window_near: "smooth_window near_pts 0 = [3000, 5000]"
proof -
  have "[0..<length [qa, qb]] = [0, 1]" by (simp add: upt_rec)
  then show ?thesis
    unfolding near_pts_def smooth_window_def
    by (simp add: within_smooth_radius dist_pos_iff qa_def qb_def)
qed

text \<open>
  C10. For every heat point (rents are integers before the pass), the smoothed rent lies
  between the least and the greatest of the point's own rent and the rents of its
  neighbours within the smoothing radius, with the weights of the baseline and with those
  of S8. The total weight that divides the weighted sum is at least the anchor 2, so the
  division is never by zero.
\<close>

theorem smoothed_within_window:
  assumes "i < length hps"
  shows "Min (set (smooth_window hps i)) \<le> hp_rent (smooth weight_iso hps ! i)
       \<and> hp_rent (smooth weight_iso hps ! i) \<le> Max (set (smooth_window hps i))
       \<and> Min (set (smooth_window hps i)) \<le> hp_rent (smooth weight_aniso hps ! i)
       \<and> hp_rent (smooth weight_aniso hps ! i) \<le> Max (set (smooth_window hps i))
       \<and> 2 \<le> fst (smooth_sums weight_iso hps i) \<and> 2 \<le> fst (smooth_sums weight_aniso hps i)"
proof -
  have r: "\<And>x. x \<in> set (smooth_window hps i) \<Longrightarrow>
             Min (set (smooth_window hps i)) \<le> x \<and> x \<le> Max (set (smooth_window hps i))"
    by simp
  show ?thesis
    using smooth_point_between [of weight_iso hps i, OF weight_iso_nonneg r]
      smooth_point_between [of weight_aniso hps i, OF weight_aniso_nonneg r]
      total_weight_ge_2 [of weight_iso hps i, OF weight_iso_nonneg]
      total_weight_ge_2 [of weight_aniso hps i, OF weight_aniso_nonneg]
      assms
    by (simp add: smooth_nth)
qed

theorem smoothed_within_window_witness:
  "3000 \<le> hp_rent (smooth weight_iso near_pts ! 0)
   \<and> hp_rent (smooth weight_iso near_pts ! 0) \<le> 5000
   \<and> 3000 \<le> hp_rent (smooth weight_aniso near_pts ! 0)
   \<and> hp_rent (smooth weight_aniso near_pts ! 0) \<le> 5000"
proof -
  have "0 < length near_pts" by (simp add: near_pts_def)
  from smoothed_within_window [OF this] show ?thesis by (simp add: smooth_window_near)
qed

subsection \<open>Short lists\<close>

lemma heat_point_eta:
  "\<lparr>hp_lat = hp_lat a, hp_lng = hp_lng a, hp_rent = hp_rent a, hp_count = hp_count a\<rparr> = a"
  by (cases a) simp

lemma smooth_single: "smooth weight [a] = [a]"
proof -
  have "smooth_sums weight [a] 0 = (2, of_int (hp_rent a) * 2)"
    by (simp add: smooth_sums_def smooth_acc_def)
  then have "smooth_point weight [a] 0 = a"
    by (simp add: smooth_point_def py_round_of_int heat_point_eta)
  then show ?thesis by (simp add: smooth_def)
qed

lemma smooth_two_far:
  assumes "\<not> dist a b < SMOOTH_RADIUS" "\<not> dist b a < SMOOTH_RADIUS"
  shows "smooth weight [a, b] = [a, b]"
proof -
  have upt: "[0..<length [a, b]] = [0, 1]" by (simp add: upt_rec)
  have "smooth_sums weight [a, b] 0 = (2, of_int (hp_rent a) * 2)"
    and "smooth_sums weight [a, b] 1 = (2, of_int (hp_rent b) * 2)"
    using assms unfolding smooth_sums_def upt by (simp_all add: smooth_acc_def)
  then have "smooth_point weight [a, b] 0 = a" "smooth_point weight [a, b] 1 = b"
    by (simp_all add: smooth_point_def py_round_of_int heat_point_eta)
  then show ?thesis unfolding smooth_def upt by simp
qed

subsection \<open>The rents that reach the clamping pass\<close>

lemma smoothed_rents:
  "hp \<in> set (smoothed_baseline all_raw) \<or> hp \<in> set (smoothed_s8 all_raw) \<Longrightarrow> 500 \<le> hp_rent hp"
proof -
  have b: "\<forall>l \<in> set (non_rs_baseline (cleaned all_raw)). 500 \<le> rent l"
    using non_rs_subset(1) [of "cleaned all_raw"] cleaned_rent by blast
  have s: "\<forall>l \<in> set (non_rs_s8 (cleaned all_raw)). 500 \<le> rent l"
    using non_rs_subset(2) [of "cleaned all_raw"] cleaned_rent by blast
  have "500 \<le> hp_rent hp" if "hp \<in> set (smoothed_baseline all_raw)"
    using that heat_points_baseline_rent [OF b] unfolding smoothed_baseline_def
    by (intro smooth_rents_ge [of weight_iso]) (auto simp: weight_iso_nonneg)
  moreover have "500 \<le> hp_rent hp" if "hp \<in> set (smoothed_s8 all_raw)"
    using that heat_points_s8_rent [OF s] unfolding smoothed_s8_def
    by (intro smooth_rents_ge [of weight_aniso]) (auto simp: weight_aniso_nonneg)
  ultimately show "hp \<in> set (smoothed_baseline all_raw) \<or> hp \<in> set (smoothed_s8 all_raw)
      \<Longrightarrow> 500 \<le> hp_rent hp"
    by blast
qed

lemma grid_key_demo:
  "grid_key da = (40.599, - 73.92, 0.003)" "grid_key db = (40.611, - 73.92, 0.003)"
  by (simp_all add: da_def db_def key_eval)

lemma kept_cells_demo:
  "kept_cells clamp_demo
     = [((40.599, - 73.92, 0.003), [da, da]), ((40.611, - 73.92, 0.003), [db, db])]"
  by (simp add: kept_cells_def grid_cells_def group_by_def clamp_demo_def grid_key_demo
      MIN_CELL_COUNT_def)

lemma heat_points_demo:
  "heat_points_baseline clamp_demo = [hi_hp, lo_hp]" "heat_points_s8 clamp_demo = [hi_hp, lo_hp]"
  by (simp_all add: heat_points_baseline_def heat_points_s8_def kept_cells_demo middle_sorted_def
      cell_rent_s8_def mean_def group_by_def demo_fields hi_hp_def lo_hp_def
      py_round_nd_def py_round_def Let_def)

lemma demo_far: "\<not> dist hi_hp lo_hp < SMOOTH_RADIUS" "\<not> dist lo_hp hi_hp < SMOOTH_RADIUS"
  by (simp_all add: within_smooth_radius hi_hp_def lo_hp_def)

lemma smoothed_demo:
  "smoothed_baseline clamp_demo = [hi_hp, lo_hp]" "smoothed_s8 clamp_demo = [hi_hp, lo_hp]"
  by (simp_all add: smoothed_baseline_def smoothed_s8_def cleaned_demo non_rs_demo heat_points_demo
      smooth_two_far [OF demo_far])

section \<open>The clamping pass\<close>

lemma length_clamp_step [simp]: "length (clamp_step i hps) = length hps"
  by (simp add: clamp_step_def Let_def)

lemma clamp_step_other: "j \<noteq> i \<Longrightarrow> clamp_step i hps ! j = hps ! j"
  by (simp add: clamp_step_def Let_def)

lemma clamp_step_fields:
  "hp_lat (clamp_step i hps ! j) = hp_lat (hps ! j) \<and>
   hp_lng (clamp_step i hps ! j) = hp_lng (hps ! j) \<and>
   hp_count (clamp_step i hps ! j) = hp_count (hps ! j)"
proof (cases "j = i")
  case False
  then show ?thesis by (simp add: clamp_step_other)
next
  case True
  show ?thesis
  proof (cases "i < length hps")
    case True
    then show ?thesis using \<open>j = i\<close> by (simp add: clamp_step_def Let_def)
  next
    case False
    then have "hps[i := x] = hps" for x by (intro list_update_beyond) simp
    then show ?thesis by (simp add: clamp_step_def Let_def)
  qed
qed

subsection \<open>The list while the loop runs\<close>

lemma clamp_state_0: "clamp_state hps 0 = hps"
  by (simp add: clamp_state_def)

lemma clamp_state_Suc: "clamp_state hps (Suc k) = clamp_step k (clamp_state hps k)"
  by (simp add: clamp_state_def)

lemma length_clamp_state [simp]: "length (clamp_state hps k) = length hps"
  by (induction k) (simp_all add: clamp_state_Suc, simp add: clamp_state_def)

text \<open>A point is as it was until its own turn.\<close>

lemma clamp_state_untouched: "k \<le> j \<Longrightarrow> clamp_state hps k ! j = hps ! j"
proof (induction k)
  case 0
  then show ?case by (simp add: clamp_state_def)
next
  case (Suc k)
  then show ?case by (simp add: clamp_state_Suc clamp_step_other)
qed

text \<open>A point is final after its own turn.\<close>

lemma clamp_state_settled: "j < k \<Longrightarrow> clamp_state hps k ! j = clamp_state hps (Suc j) ! j"
proof (induction k)
  case 0
  then show ?case by simp
next
  case (Suc k)
  show ?case
  proof (cases "j = k")
    case True
    then show ?thesis by simp
  next
    case False
    then have "j < k" using Suc.prems by simp
    then have "clamp_state hps k ! j = clamp_state hps (Suc j) ! j" by (rule Suc.IH)
    moreover have "clamp_state hps (Suc k) ! j = clamp_state hps k ! j"
      using False by (simp add: clamp_state_Suc [of hps k] clamp_step_other)
    ultimately show ?thesis by simp
  qed
qed

lemma clamp_eq_state: "clamp hps = clamp_state hps (length hps)"
  by (simp add: clamp_def clamp_state_def)

lemma clamp_nth: "i < length hps \<Longrightarrow> clamp hps ! i = clamp_step i (clamp_state hps i) ! i"
proof -
  assume "i < length hps"
  then have "clamp_state hps (length hps) ! i = clamp_state hps (Suc i) ! i"
    by (rule clamp_state_settled)
  then show ?thesis by (simp only: clamp_eq_state clamp_state_Suc)
qed

lemma clamp_state_take_drop:
  "i \<le> length hps \<Longrightarrow> clamp_state hps i = take i (clamp hps) @ drop i hps"
proof (rule nth_equalityI)
  assume i: "i \<le> length hps"
  show "length (clamp_state hps i) = length (take i (clamp hps) @ drop i hps)"
    using i by (simp add: clamp_eq_state)
  fix j assume "j < length (clamp_state hps i)"
  then have j: "j < length hps" by simp
  show "clamp_state hps i ! j = (take i (clamp hps) @ drop i hps) ! j"
  proof (cases "j < i")
    case True
    then have "clamp_state hps i ! j = clamp_state hps (Suc j) ! j"
      by (rule clamp_state_settled)
    also have "\<dots> = clamp_state hps (length hps) ! j"
      using j by (rule clamp_state_settled [symmetric])
    finally show ?thesis using True i j by (simp add: nth_append clamp_eq_state)
  next
    case False
    then show ?thesis using i j by (simp add: nth_append clamp_eq_state clamp_state_untouched)
  qed
qed

lemma clamp_state_fields:
  "hp_lat (clamp_state hps k ! j) = hp_lat (hps ! j) \<and>
   hp_lng (clamp_state hps k ! j) = hp_lng (hps ! j) \<and>
   hp_count (clamp_state hps k ! j) = hp_count (hps ! j)"
proof (induction k)
  case 0
  then show ?case by (simp add: clamp_state_def)
next
  case (Suc k)
  then show ?case using clamp_step_fields [of k "clamp_state hps k" j] by (simp add: clamp_state_Suc)
qed

text \<open>Who is a neighbour of whom depends on the coordinates alone, which the pass keeps.\<close>

lemma dist_clamp_state:
  "dist (clamp_state hps k ! i) (clamp_state hps k ! j) = dist (hps ! i) (hps ! j)"
  by (simp add: dist_def clamp_state_fields)

lemma clamp_neighbors_state_length:
  "length (clamp_neighbors (clamp_state hps k) i) = length (clamp_neighbors hps i)"
  by (simp add: clamp_neighbors_def dist_clamp_state)

lemma clamp_neighbors_state_Nil:
  "clamp_neighbors (clamp_state hps k) i = [] \<longleftrightarrow> clamp_neighbors hps i = []"
  using clamp_neighbors_state_length [of hps k i] by (simp only: length_0_conv [symmetric])

subsection \<open>One turn of the loop\<close>

lemma clamp_neighbors_subset: "set (clamp_neighbors s i) \<subseteq> hp_rent ` set s"
  by (auto simp: clamp_neighbors_def)

lemma clamp_step_rents:
  assumes "\<forall>hp \<in> set s. m \<le> hp_rent hp"
  shows "\<forall>hp \<in> set (clamp_step i s). m \<le> hp_rent hp"
proof (cases "clamp_step i s = s")
  case True
  then show ?thesis using assms by simp
next
  case False
  then have nb: "clamp_neighbors s i \<noteq> []"
    and eq: "clamp_step i s = s[i := (s ! i)\<lparr>hp_rent := middle_sorted (clamp_neighbors s i)\<rparr>]"
    by (auto simp: clamp_step_def Let_def split: if_splits)
  have "middle_sorted (clamp_neighbors s i) \<in> hp_rent ` set s"
    using middle_sorted_mem [OF nb] clamp_neighbors_subset by blast
  then have "m \<le> middle_sorted (clamp_neighbors s i)" using assms by auto
  then show ?thesis
    using assms set_update_subset_insert [of s i] unfolding eq by fastforce
qed

lemma clamp_state_rents:
  assumes "\<forall>hp \<in> set hps. m \<le> hp_rent hp"
  shows "\<forall>hp \<in> set (clamp_state hps k). m \<le> hp_rent hp"
proof (induction k)
  case 0
  then show ?case using assms by (simp add: clamp_state_def)
next
  case (Suc k)
  then show ?case unfolding clamp_state_Suc by (rule clamp_step_rents)
qed

lemma clamp_step_point:
  assumes i: "i < length s" and nonneg: "\<forall>hp \<in> set s. 0 \<le> hp_rent hp"
  shows "hp_rent (clamp_step i s ! i) \<le> hp_rent (s ! i)
       \<and> (CLAMP_MAX_N \<le> hp_count (s ! i) \<longrightarrow> clamp_step i s ! i = s ! i)
       \<and> (clamp_neighbors s i = [] \<longrightarrow> clamp_step i s ! i = s ! i)
       \<and> (hp_count (s ! i) < CLAMP_MAX_N \<and> clamp_neighbors s i \<noteq> [] \<longrightarrow>
            clamp_step i s ! i =
              (if of_int (hp_rent (s ! i))
                    > of_int (middle_sorted (clamp_neighbors s i)) * CLAMP_THRESHOLD
               then (s ! i)\<lparr>hp_rent := middle_sorted (clamp_neighbors s i)\<rparr> else s ! i))"
proof -
  have le: "hp_rent (clamp_step i s ! i) \<le> hp_rent (s ! i)"
  proof (cases "clamp_step i s = s")
    case True
    then show ?thesis by simp
  next
    case False
    then have nb: "clamp_neighbors s i \<noteq> []"
      and gt: "real_of_int (hp_rent (s ! i))
                 > of_int (middle_sorted (clamp_neighbors s i)) * CLAMP_THRESHOLD"
      and eq: "clamp_step i s = s[i := (s ! i)\<lparr>hp_rent := middle_sorted (clamp_neighbors s i)\<rparr>]"
      by (auto simp: clamp_step_def Let_def split: if_splits)
    have "middle_sorted (clamp_neighbors s i) \<in> hp_rent ` set s"
      using middle_sorted_mem [OF nb] clamp_neighbors_subset by blast
    then have "0 \<le> middle_sorted (clamp_neighbors s i)" using nonneg by auto
    then have "real_of_int (middle_sorted (clamp_neighbors s i)) \<le> of_int (hp_rent (s ! i))"
      using gt by (simp add: CLAMP_THRESHOLD_def)
    then show ?thesis using i by (simp add: eq)
  qed
  have len: "1 \<le> length (clamp_neighbors s i) \<longleftrightarrow> clamp_neighbors s i \<noteq> []"
    by (cases "clamp_neighbors s i") simp_all
  show ?thesis using le i by (auto simp: clamp_step_def Let_def len simp del: One_nat_def)
qed

subsection \<open>The pass on the examples\<close>

lemma clamp_single: "clamp [a] = [a]"
  by (simp add: clamp_def clamp_step_def clamp_neighbors_def)

lemma clamp_neighbors_2:
  "clamp_neighbors [a, b] i =
     map (\<lambda>j. hp_rent ([a, b] ! j))
       (filter (\<lambda>j. i \<noteq> j \<and> dist ([a, b] ! i) ([a, b] ! j) < CLAMP_RADIUS) [0, 1])"
proof -
  have "[0..<length [a, b]] = [0, 1]" by (simp add: upt_rec)
  then show ?thesis by (simp only: clamp_neighbors_def)
qed

lemma clamp_2: "clamp [a, b] = clamp_step 1 (clamp_step 0 [a, b])"
proof -
  have "[0..<length [a, b]] = [0, 1]" by (simp add: upt_rec)
  then show ?thesis by (simp only: clamp_def fold.simps o_apply id_apply)
qed

lemma clamp_neighbors_4:
  "clamp_neighbors [a, b, c, d] i =
     map (\<lambda>j. hp_rent ([a, b, c, d] ! j))
       (filter (\<lambda>j. i \<noteq> j \<and> dist ([a, b, c, d] ! i) ([a, b, c, d] ! j) < CLAMP_RADIUS)
          [0, 1, 2, 3])"
proof -
  have "[0..<length [a, b, c, d]] = [0, 1, 2, 3]" by (simp add: upt_rec)
  then show ?thesis by (simp only: clamp_neighbors_def)
qed

lemma clamp_4:
  "clamp [a, b, c, d] = clamp_step 3 (clamp_step 2 (clamp_step 1 (clamp_step 0 [a, b, c, d])))"
proof -
  have "[0..<length [a, b, c, d]] = [0, 1, 2, 3]" by (simp add: upt_rec)
  then show ?thesis by (simp only: clamp_def fold.simps o_apply id_apply)
qed

lemma clamp_snapshot_4:
  "clamp_snapshot [a, b, c, d] =
     [clamp_step 0 [a, b, c, d] ! 0, clamp_step 1 [a, b, c, d] ! 1,
      clamp_step 2 [a, b, c, d] ! 2, clamp_step 3 [a, b, c, d] ! 3]"
proof -
  have "[0..<length [a, b, c, d]] = [0, 1, 2, 3]" by (simp add: upt_rec)
  then show ?thesis by (simp only: clamp_snapshot_def list.map)
qed

lemmas clamp_eval = clamp_step_def clamp_neighbors_4 middle_sorted_def within_clamp_radius
  CLAMP_THRESHOLD_def CLAMP_MAX_N_def Let_def

lemma line_turn_0: "clamp_step 0 [pA, pB, pC, pD] = [pA\<lparr>hp_rent := 1000\<rparr>, pB, pC, pD]"
  by (simp add: clamp_eval pA_def pB_def pC_def pD_def)

lemma line_turn_1:
  "clamp_step 1 [pA\<lparr>hp_rent := 1000\<rparr>, pB, pC, pD]
     = [pA\<lparr>hp_rent := 1000\<rparr>, pB\<lparr>hp_rent := 1000\<rparr>, pC, pD]"
  by (simp add: clamp_eval pA_def pB_def pC_def pD_def)

lemma line_turn_2:
  "clamp_step 2 [pA\<lparr>hp_rent := 1000\<rparr>, pB\<lparr>hp_rent := 1000\<rparr>, pC, pD]
     = [pA\<lparr>hp_rent := 1000\<rparr>, pB\<lparr>hp_rent := 1000\<rparr>, pC, pD]"
  by (simp add: clamp_eval pA_def pB_def pC_def pD_def)

lemma line_turn_3:
  "clamp_step 3 [pA\<lparr>hp_rent := 1000\<rparr>, pB\<lparr>hp_rent := 1000\<rparr>, pC, pD]
     = [pA\<lparr>hp_rent := 1000\<rparr>, pB\<lparr>hp_rent := 1000\<rparr>, pC, pD]"
  by (simp add: clamp_eval pA_def pB_def pC_def pD_def)

lemma clamp_line: "clamp line_pts = [pA\<lparr>hp_rent := 1000\<rparr>, pB\<lparr>hp_rent := 1000\<rparr>, pC, pD]"
  by (simp only: line_pts_def clamp_4 line_turn_0 line_turn_1 line_turn_2 line_turn_3)

lemma line_alone_1: "clamp_step 1 [pA, pB, pC, pD] = [pA, pB, pC, pD]"
  by (simp add: clamp_eval pA_def pB_def pC_def pD_def)

lemma line_alone_2: "clamp_step 2 [pA, pB, pC, pD] = [pA, pB, pC, pD]"
  by (simp add: clamp_eval pA_def pB_def pC_def pD_def)

lemma line_alone_3: "clamp_step 3 [pA, pB, pC, pD] = [pA, pB, pC, pD]"
  by (simp add: clamp_eval pA_def pB_def pC_def pD_def)

lemma snapshot_line: "clamp_snapshot line_pts = [pA\<lparr>hp_rent := 1000\<rparr>, pB, pC, pD]"
  by (simp only: line_pts_def clamp_snapshot_4 line_turn_0 line_alone_1 line_alone_2 line_alone_3)
    simp

lemma hi_hp_fields: "hp_rent hi_hp = 9000" "hp_count hi_hp = 2"
  by (simp_all add: hi_hp_def)

lemma clamp_neighbors_demo: "clamp_neighbors [hi_hp, lo_hp] 0 = [3000]"
  by (simp add: clamp_neighbors_2 within_clamp_radius hi_hp_def lo_hp_def)

lemma clamp_demo_turns:
  "clamp_step 0 [hi_hp, lo_hp] = [hi_hp\<lparr>hp_rent := 3000\<rparr>, lo_hp]"
  "clamp_step 1 [hi_hp\<lparr>hp_rent := 3000\<rparr>, lo_hp] = [hi_hp\<lparr>hp_rent := 3000\<rparr>, lo_hp]"
  by (simp_all add: clamp_step_def clamp_neighbors_2 within_clamp_radius middle_sorted_def
      CLAMP_THRESHOLD_def CLAMP_MAX_N_def hi_hp_def lo_hp_def Let_def)

lemma clamp_demo_result: "clamp [hi_hp, lo_hp] = [hi_hp\<lparr>hp_rent := 3000\<rparr>, lo_hp]"
  by (simp only: clamp_2 clamp_demo_turns)

subsection \<open>What a point's clamped rent depends on\<close>

text \<open>
  C1, as stated: the in-place clamper was to agree with a clamper that reads only the
  rents from before the pass. On the four points of \<open>line_pts\<close> it does not: \<open>pA\<close> is
  clamped from 9000 to 1000 first, and \<open>pB\<close> (rent 5000, only neighbour \<open>pA\<close>) is then
  clamped against 1000, where the snapshot clamper compares it with 9000 and keeps it.
\<close>

theorem clamp_order_counterexample: "clamp line_pts \<noteq> clamp_snapshot line_pts"
  by (simp add: clamp_line snapshot_line pB_def)

text \<open>
  C1, amended. The clamped rent of point \<open>i\<close> is determined by the list made of the
  already clamped points before \<open>i\<close> and the points from \<open>i\<close> on as they were before the
  pass (the smoothed values): the pass reads the list it is writing. It agrees with the
  snapshot clamper at \<open>i\<close> whenever no point before \<open>i\<close> was changed, so for the first
  point always; in general the order of the points matters.
\<close>

theorem clamp_reads_running_list:
  assumes "i < length hps"
  shows "clamp hps ! i = clamp_step i (take i (clamp hps) @ drop i hps) ! i
       \<and> ((\<forall>j<i. clamp hps ! j = hps ! j) \<longrightarrow> clamp hps ! i = clamp_snapshot hps ! i)"
proof -
  have first: "clamp hps ! i = clamp_step i (take i (clamp hps) @ drop i hps) ! i"
    using assms clamp_nth [of i hps] clamp_state_take_drop [of i hps] by simp
  have "clamp hps ! i = clamp_snapshot hps ! i" if same: "\<forall>j<i. clamp hps ! j = hps ! j"
  proof -
    have "take i (clamp hps) @ drop i hps = hps"
    proof (rule nth_equalityI)
      show "length (take i (clamp hps) @ drop i hps) = length hps"
        using assms by (simp add: clamp_eq_state)
      fix j assume "j < length (take i (clamp hps) @ drop i hps)"
      then show "(take i (clamp hps) @ drop i hps) ! j = hps ! j"
        using assms same by (cases "j < i") (simp_all add: nth_append clamp_eq_state)
    qed
    then show ?thesis using first assms by (simp add: clamp_snapshot_def)
  qed
  then show ?thesis using first by blast
qed

theorem clamp_reads_running_list_witness:
  "clamp line_pts ! 0 = clamp_snapshot line_pts ! 0
   \<and> clamp line_pts ! 1 = clamp_step 1 ([pA\<lparr>hp_rent := 1000\<rparr>] @ [pB, pC, pD]) ! 1
   \<and> clamp line_pts ! 1 = pB\<lparr>hp_rent := 1000\<rparr> \<and> clamp_snapshot line_pts ! 1 = pB"
proof -
  have len: "0 < length line_pts" "1 < length line_pts" by (simp_all add: line_pts_def)
  have "take 1 (clamp line_pts) @ drop 1 line_pts = [pA\<lparr>hp_rent := 1000\<rparr>] @ [pB, pC, pD]"
    by (simp add: clamp_line) (simp add: line_pts_def)
  with clamp_reads_running_list [OF len(1)] clamp_reads_running_list [OF len(2)]
  show ?thesis by (simp add: clamp_line snapshot_line)
qed

subsection \<open>What the pass does to a point\<close>

text \<open>
  C6. For every heat point that reaches the pass, in either generator (\<open>hps\<close> is the
  smoothed list, \<open>i\<close> the point's index): the point is as smoothed when its turn comes;
  its rent after the pass is at most its rent before; a point with count 10 or more is
  unchanged; a point with no other point within the clamping radius is unchanged; and any
  other point gets the middle element of its neighbours' sorted rents exactly when its
  rent exceeds 1.5 times that element, and is unchanged otherwise. The neighbours' rents
  are read from the list as it is at the point's turn.
\<close>

theorem clamp_pass_spec:
  assumes "hps = smoothed_baseline all_raw \<or> hps = smoothed_s8 all_raw" and "i < length hps"
  shows "clamp_state hps i ! i = hps ! i
       \<and> hp_rent (clamp hps ! i) \<le> hp_rent (hps ! i)
       \<and> (CLAMP_MAX_N \<le> hp_count (hps ! i) \<longrightarrow> clamp hps ! i = hps ! i)
       \<and> (clamp_neighbors hps i = [] \<longrightarrow> clamp hps ! i = hps ! i)
       \<and> (hp_count (hps ! i) < CLAMP_MAX_N \<and> clamp_neighbors hps i \<noteq> [] \<longrightarrow>
            clamp hps ! i =
              (if of_int (hp_rent (hps ! i))
                    > of_int (middle_sorted (clamp_neighbors (clamp_state hps i) i)) * CLAMP_THRESHOLD
               then (hps ! i)\<lparr>hp_rent := middle_sorted (clamp_neighbors (clamp_state hps i) i)\<rparr>
               else hps ! i))"
proof -
  have "\<forall>hp \<in> set hps. 500 \<le> hp_rent hp"
    using assms(1) smoothed_rents [of _ all_raw] by blast
  then have "\<forall>hp \<in> set (clamp_state hps i). 500 \<le> hp_rent hp" by (rule clamp_state_rents)
  then have nonneg: "\<forall>hp \<in> set (clamp_state hps i). 0 \<le> hp_rent hp" by fastforce
  have same: "clamp_state hps i ! i = hps ! i" by (simp add: clamp_state_untouched)
  have i: "i < length (clamp_state hps i)" using assms(2) by simp
  show ?thesis
    using clamp_step_point [OF i nonneg] clamp_nth [OF assms(2)]
    by (simp add: same clamp_neighbors_state_Nil)
qed

theorem clamp_pass_spec_witness:
  "hp_rent (clamp (smoothed_baseline clamp_demo) ! 0) \<le> hp_rent (smoothed_baseline clamp_demo ! 0)
   \<and> clamp (smoothed_baseline clamp_demo) ! 0
       = \<lparr>hp_lat = 40.599, hp_lng = - 73.92, hp_rent = 3000, hp_count = 2\<rparr>"
proof -
  have "[hi_hp, lo_hp] = smoothed_baseline clamp_demo \<or> [hi_hp, lo_hp] = smoothed_s8 clamp_demo"
    by (simp add: smoothed_demo)
  from clamp_pass_spec [OF this, of 0]
  have "hp_rent (clamp [hi_hp, lo_hp] ! 0) \<le> hp_rent hi_hp
        \<and> clamp [hi_hp, lo_hp] ! 0 = hi_hp\<lparr>hp_rent := 3000\<rparr>"
    by (simp add: clamp_state_0 clamp_neighbors_demo middle_sorted_def hi_hp_fields
        CLAMP_THRESHOLD_def CLAMP_MAX_N_def)
  then show ?thesis by (simp add: smoothed_demo) (simp add: hi_hp_def)
qed

section \<open>The output and the whole run\<close>

lemma smooth_fields:
  "map (\<lambda>hp. (hp_lat hp, hp_lng hp, hp_count hp)) (smooth weight hps)
     = map (\<lambda>hp. (hp_lat hp, hp_lng hp, hp_count hp)) hps"
  by (rule nth_equalityI) (simp_all add: smooth_nth smooth_point_fields)

lemma clamp_fields:
  "map (\<lambda>hp. (hp_lat hp, hp_lng hp, hp_count hp)) (clamp hps)
     = map (\<lambda>hp. (hp_lat hp, hp_lng hp, hp_count hp)) hps"
  by (rule nth_equalityI) (simp_all add: clamp_eq_state clamp_state_fields)

lemma counts_preserved:
  assumes "\<forall>hp \<in> set hps. n \<le> hp_count hp"
  shows "\<forall>hp \<in> set (sort_output (clamp (smooth weight hps))). n \<le> hp_count hp"
proof -
  have "hp_count ` set (clamp (smooth weight hps)) = hp_count ` set hps"
  proof -
    have "map hp_count (clamp (smooth weight hps)) = map hp_count hps"
      using arg_cong [OF clamp_fields [of "smooth weight hps"], of "map (\<lambda>t. snd (snd t))"]
        arg_cong [OF smooth_fields [of weight hps], of "map (\<lambda>t. snd (snd t))"]
      by (simp add: comp_def)
    then show ?thesis by (metis set_map)
  qed
  then have "hp_count hp \<in> hp_count ` set hps" if "hp \<in> set (clamp (smooth weight hps))" for hp
    using that by blast
  then have "n \<le> hp_count hp" if "hp \<in> set (clamp (smooth weight hps))" for hp
    using that assms by fastforce
  then show ?thesis by (simp add: sort_output_def)
qed

lemma sort_single: "sort_output [a] = [a]"
  by (simp add: sort_output_def)

lemma sort_demo:
  "sort_output [hi_hp\<lparr>hp_rent := 3000\<rparr>, lo_hp] = [hi_hp\<lparr>hp_rent := 3000\<rparr>, lo_hp]"
  by (simp add: sort_output_def hi_hp_def lo_hp_def)

lemma run_baseline_demo: "run_baseline clamp_demo [] = [hi_hp\<lparr>hp_rent := 3000\<rparr>, lo_hp]"
  by (simp add: run_baseline_def smoothed_demo clamp_demo_result sort_demo)

text \<open>
  C5. In every run of either generator, every emitted heat point has a count of at least
  \<open>MIN_CELL_COUNT\<close> (2); the smoothing pass, with either weight, and the clamping pass
  leave the latitude, the longitude and the count of every point as they were.
\<close>

theorem occupancy_and_identity:
  "(\<forall>hp \<in> set (run_baseline listings rented). MIN_CELL_COUNT \<le> hp_count hp)
   \<and> (\<forall>hp \<in> set (run_s8 CUTOFF_DATE listings rented_v2). MIN_CELL_COUNT \<le> hp_count hp)
   \<and> map (\<lambda>hp. (hp_lat hp, hp_lng hp, hp_count hp)) (smooth weight_iso hps)
        = map (\<lambda>hp. (hp_lat hp, hp_lng hp, hp_count hp)) hps
   \<and> map (\<lambda>hp. (hp_lat hp, hp_lng hp, hp_count hp)) (smooth weight_aniso hps)
        = map (\<lambda>hp. (hp_lat hp, hp_lng hp, hp_count hp)) hps
   \<and> map (\<lambda>hp. (hp_lat hp, hp_lng hp, hp_count hp)) (clamp hps)
        = map (\<lambda>hp. (hp_lat hp, hp_lng hp, hp_count hp)) hps"
proof -
  have "\<forall>hp \<in> set (run_baseline listings rented). MIN_CELL_COUNT \<le> hp_count hp"
    unfolding run_baseline_def smoothed_baseline_def
    by (rule counts_preserved) (use heat_points_count in blast)
  moreover have "\<forall>hp \<in> set (run_s8 CUTOFF_DATE listings rented_v2). MIN_CELL_COUNT \<le> hp_count hp"
    unfolding run_s8_def smoothed_s8_def
    by (rule counts_preserved) (use heat_points_count in blast)
  ultimately show ?thesis by (simp only: smooth_fields clamp_fields)
qed

theorem occupancy_and_identity_witness:
  "run_baseline clamp_demo [] = [hi_hp\<lparr>hp_rent := 3000\<rparr>, lo_hp]
   \<and> MIN_CELL_COUNT \<le> hp_count (hi_hp\<lparr>hp_rent := 3000\<rparr>) \<and> MIN_CELL_COUNT \<le> hp_count lo_hp
   \<and> map (\<lambda>hp. (hp_lat hp, hp_lng hp, hp_count hp)) (clamp [hi_hp, lo_hp])
        = [(40.599, - 73.92, 2), (40.611, - 73.92, 2)]"
  using occupancy_and_identity [where listings = clamp_demo and rented = "[]"
      and hps = "[hi_hp, lo_hp]"]
  by (simp add: run_baseline_demo) (simp add: hi_hp_def lo_hp_def)

subsection \<open>The clock\<close>

lemma date_order:
  "''2024-01-01'' \<le> ''2024-06-15''" "''2024-03-01'' \<le> ''2024-06-15''"
  "\<not> ''2025-01-01'' \<le> ''2024-06-15''"
  by (simp_all add: less_eq_char_def less_char_def)

lemma ra_fields: "rent ra = 3000" "neighborhood ra = None" "rented_date ra = ''2024-06-15''"
  "beds ra = Some 1"
  by (simp_all add: ra_def sa_def listing_at_def)

lemma keep_ra: "keep ra"
  by (simp add: keep_def ra_def sa_def listing_at_def upper_def BAD_TYPES_def)

lemma rented_recent_pair:
  "rented_recent ''2024-01-01'' rented_pair = rented_pair"
  "rented_recent ''2024-03-01'' rented_pair = rented_pair"
  "rented_recent ''2025-01-01'' rented_pair = []"
  by (simp_all add: rented_recent_def rented_pair_def ra_fields date_order)

lemma cleaned_pair: "cleaned rented_pair = rented_pair"
  by (simp add: cleaned_def one_br_def rented_pair_def ra_fields keep_ra)

lemma no_median_pair: "get_spatial_median (spatial_medians rented_pair) (lat ra) (lng ra) = None"
  by (simp add: get_spatial_median_eq rented_pair_def)

lemma non_rs_pair: "non_rs_s8 rented_pair = rented_pair"
proof -
  have "\<not> is_rs_s8 t (spatial_medians rented_pair) ra" for t
    by (simp add: is_rs_s8_def below_ratio_def no_median_pair)
  then show ?thesis
    by (simp add: non_rs_s8_def non_rs_s8_at_def) (simp add: rented_pair_def)
qed

lemma grid_key_ra: "grid_key ra = (40.599, - 73.92, 0.003)"
  by (simp add: ra_def sa_def key_eval)

lemma heat_points_pair: "heat_points_s8 rented_pair = [cell_hp 3000 2]"
  by (simp add: heat_points_s8_def kept_cells_def grid_cells_def group_by_def rented_pair_def
      grid_key_ra MIN_CELL_COUNT_def cell_rent_s8_def mean_def ra_fields cell_hp_def
      py_round_nd_def py_round_def Let_def)

lemma run_s8_pair:
  "run_s8 ''2024-01-01'' [] rented_pair = [cell_hp 3000 2]"
  "run_s8 ''2025-01-01'' [] rented_pair = []"
proof -
  show "run_s8 ''2024-01-01'' [] rented_pair = [cell_hp 3000 2]"
    by (simp add: run_s8_def smoothed_s8_def rented_recent_pair cleaned_pair non_rs_pair
        heat_points_pair smooth_single clamp_single sort_single)
  have "cleaned [] = []" by (simp add: cleaned_def one_br_def)
  moreover have "non_rs_s8 [] = []" by (simp add: non_rs_s8_def non_rs_s8_at_def)
  moreover have "heat_points_s8 [] = []"
    by (simp add: heat_points_s8_def kept_cells_def grid_cells_def group_by_def)
  moreover have "smooth weight_aniso [] = []" by (simp add: smooth_def)
  moreover have "clamp [] = []" by (simp add: clamp_def)
  ultimately show "run_s8 ''2025-01-01'' [] rented_pair = []"
    by (simp add: run_s8_def smoothed_s8_def rented_recent_pair sort_output_def)
qed

text \<open>
  C7, as stated: two runs on the same records were to give the same output. The S8
  generator derives its cut-off date from the clock: the same two rented records of June
  2024 give one heat point in a run whose cut-off is 1 January 2024 and none in a run
  whose cut-off is 1 January 2025.
\<close>

theorem clock_counterexample:
  "run_s8 ''2024-01-01'' [] rented_pair \<noteq> run_s8 ''2025-01-01'' [] rented_pair"
  by (simp add: run_s8_pair)

lemma sort_output_sorted:
  "sorted_wrt (\<lambda>a b. hp_rent b < hp_rent a \<or> (hp_rent a = hp_rent b \<and> hp_lat a \<le> hp_lat b))
     (sort_output hps)"
proof -
  have "sorted (map (\<lambda>x. (- hp_rent x, hp_lat x)) (sort_output hps))"
    by (simp add: sort_output_def)
  then have "sorted_wrt (\<lambda>a b. (- hp_rent a, hp_lat a) \<le> (- hp_rent b, hp_lat b)) (sort_output hps)"
    by (simp add: sorted_map)
  then show ?thesis by (rule sorted_wrt_mono_rel [rotated]) auto
qed

text \<open>Points with the same rent and latitude keep the order the pipeline gave them.\<close>

lemma sort_output_stable:
  "filter (\<lambda>x. (- hp_rent x, hp_lat x) = k) (sort_output hps)
     = filter (\<lambda>x. (- hp_rent x, hp_lat x) = k) hps"
  by (simp add: sort_output_def sort_key_stable)

text \<open>
  C7, amended. The output of the baseline generator is a function of its two record
  sequences, and the output of the S8 generator a function of its record sequences and
  of the cut-off date it computes from the clock: two S8 runs on the same records agree
  whenever their cut-off dates select the same rented records. Both outputs are ordered
  by descending rent, equal rents by ascending latitude.
\<close>

theorem output_determined:
  "sorted_wrt (\<lambda>a b. hp_rent b < hp_rent a \<or> (hp_rent a = hp_rent b \<and> hp_lat a \<le> hp_lat b))
     (run_baseline listings rented)
   \<and> sorted_wrt (\<lambda>a b. hp_rent b < hp_rent a \<or> (hp_rent a = hp_rent b \<and> hp_lat a \<le> hp_lat b))
     (run_s8 CUTOFF_DATE listings rented_v2)
   \<and> ((\<forall>r \<in> set rented_v2. (c1 \<le> rented_date r) = (c2 \<le> rented_date r))
        \<longrightarrow> run_s8 c1 listings rented_v2 = run_s8 c2 listings rented_v2)"
proof -
  have "rented_recent c1 rented_v2 = rented_recent c2 rented_v2"
    if "\<forall>r \<in> set rented_v2. (c1 \<le> rented_date r) = (c2 \<le> rented_date r)"
    unfolding rented_recent_def using that by (intro filter_cong) simp_all
  then show ?thesis
    by (simp add: run_baseline_def run_s8_def sort_output_sorted)
qed

theorem output_determined_witness:
  "run_s8 ''2024-01-01'' [] rented_pair = run_s8 ''2024-03-01'' [] rented_pair
   \<and> run_baseline clamp_demo [] = [hi_hp\<lparr>hp_rent := 3000\<rparr>, lo_hp]
   \<and> hp_rent (hi_hp\<lparr>hp_rent := 3000\<rparr>) = hp_rent lo_hp
   \<and> hp_lat (hi_hp\<lparr>hp_rent := 3000\<rparr>) \<le> hp_lat lo_hp"
proof -
  have same: "\<forall>r \<in> set rented_pair.
      (''2024-01-01'' \<le> rented_date r) = (''2024-03-01'' \<le> rented_date r)"
    by (simp add: rented_pair_def ra_fields date_order)
  from output_determined [where listings = "[]" and ?rented_v2.0 = rented_pair
      and ?c1.0 = "''2024-01-01''" and ?c2.0 = "''2024-03-01''"] same
    output_determined [where listings = clamp_demo and rented = "[]"]
  show ?thesis by (simp add: run_baseline_demo) (simp add: hi_hp_def lo_hp_def)
qed

end
